theory Spec2Isabelle
  imports Complex_Main
begin

section \<open>Strings as the content script uses them\<close>

text \<open>
  A JavaScript string is modelled as a \<open>string\<close> (a list of 8-bit characters), so the
  development covers the Latin-1 range; \<open>null\<close>/\<open>undefined\<close> results of DOM queries are
  \<open>None\<close>. A string is truthy when it is present and not empty.
\<close>

definition truthy :: "string option \<Rightarrow> bool" where
  "truthy v = (case v of None \<Rightarrow> False | Some s \<Rightarrow> s \<noteq> [])"

text \<open>\<open>a || b\<close> on two attribute values.\<close>

definition js_or :: "string option \<Rightarrow> string option \<Rightarrow> string option" where
  "js_or a b = (if truthy a then a else b)"

definition isDigit :: "char \<Rightarrow> bool" where
  "isDigit c = (c \<in> set ''0123456789'')"

text \<open>The white space of \<open>\s\<close> and of \<open>trim()\<close>, within the 8-bit range.\<close>

definition isSpace :: "char \<Rightarrow> bool" where
  "isSpace c = (c \<in> set [CHR '' '', CHR 0x09, CHR 0x0A, CHR 0x0B, CHR 0x0C, CHR 0x0D, CHR 0xA0])"

definition digitVal :: "char \<Rightarrow> int" where
  "digitVal c = of_char c - 48"

text \<open>The value of a run of decimal digits, most significant first.\<close>

definition decimal :: "string \<Rightarrow> int" where
  "decimal ds = foldl (\<lambda>n c. 10 * n + digitVal c) 0 ds"

definition toLowerChar :: "char \<Rightarrow> char" where
  "toLowerChar c =
     (case map_of (zip ''ABCDEFGHIJKLMNOPQRSTUVWXYZ'' ''abcdefghijklmnopqrstuvwxyz'') c of
        Some d \<Rightarrow> d
      | None \<Rightarrow> c)"

definition toLowerCase :: "string \<Rightarrow> string" where
  "toLowerCase s = map toLowerChar s"

definition trim :: "string \<Rightarrow> string" where
  "trim s = rev (dropWhile isSpace (rev (dropWhile isSpace s)))"

fun startsWith :: "string \<Rightarrow> string \<Rightarrow> bool" where
  "startsWith s [] = True"
| "startsWith [] (p # ps) = False"
| "startsWith (c # cs) (p # ps) = (c = p \<and> startsWith cs ps)"

definition endsWith :: "string \<Rightarrow> string \<Rightarrow> bool" where
  "endsWith s p = startsWith (rev s) (rev p)"

fun str_includes :: "string \<Rightarrow> string \<Rightarrow> bool" where
  "str_includes [] p = (p = [])"
| "str_includes (c # cs) p = (startsWith (c # cs) p \<or> str_includes cs p)"

text \<open>\<open>s.replace('@', '')\<close>: the first occurrence of the character goes.\<close>

fun removeFirst :: "char \<Rightarrow> string \<Rightarrow> string" where
  "removeFirst x [] = []"
| "removeFirst x (c # cs) = (if c = x then cs else c # removeFirst x cs)"

text \<open>
  \<open>href.replace(/^\//, '').split('/')[0]\<close>: the first path segment of a link, the handle
  of the author.
\<close>

definition firstSegment :: "string \<Rightarrow> string" where
  "firstSegment h =
     takeWhile (\<lambda>c. c \<noteq> CHR ''/'') (case h of [] \<Rightarrow> [] | c # cs \<Rightarrow> if c = CHR ''/'' then cs else c # cs)"

text \<open>
  \<open>href.match(/\/status\/(\d+)/)\<close>, giving the first capture group: the digits after the
  leftmost \<open>/status/\<close> that is followed by a digit.
\<close>

fun statusMatch :: "string \<Rightarrow> string option" where
  "statusMatch [] = None"
| "statusMatch (c # cs) =
     (if startsWith (c # cs) ''/status/'' \<and> takeWhile isDigit (drop 8 (c # cs)) \<noteq> []
      then Some (takeWhile isDigit (drop 8 (c # cs)))
      else statusMatch cs)"

text \<open>
  \<open>parseInt(s)\<close> on a trimmed string: an optional sign, then the longest run of digits
  (hexadecimal after \<open>0x\<close>); \<open>None\<close> is \<open>NaN\<close>.
\<close>

definition isHexDigit :: "char \<Rightarrow> bool" where
  "isHexDigit c = (c \<in> set ''0123456789abcdefABCDEF'')"

definition hexVal :: "char \<Rightarrow> int" where
  "hexVal c =
     (if isDigit c then digitVal c
      else if c \<in> set ''abcdef'' then of_char c - 87
      else of_char c - 55)"

definition parseDigits :: "string \<Rightarrow> int option" where
  "parseDigits s =
     (if startsWith s ''0x'' \<or> startsWith s ''0X''
      then (if takeWhile isHexDigit (drop 2 s) = [] then None
            else Some (foldl (\<lambda>n c. 16 * n + hexVal c) 0 (takeWhile isHexDigit (drop 2 s))))
      else (if takeWhile isDigit s = [] then None
            else Some (decimal (takeWhile isDigit s))))"

definition parseInt :: "string \<Rightarrow> int option" where
  "parseInt s =
     (case dropWhile isSpace s of
        [] \<Rightarrow> None
      | c # cs \<Rightarrow>
          if c = CHR ''-'' then map_option uminus (parseDigits cs)
          else if c = CHR ''+'' then parseDigits cs
          else parseDigits (c # cs))"

section \<open>The document as the resolvers query it\<close>

text \<open>
  An entity node (\<open>[data-testid="tweet"]\<close>) is recorded by the answers of the DOM queries
  that the script makes on it. Every element that carries an \<open>href\<close> is taken to be an
  anchor, and every \<open>span\<close> has a \<open>div\<close> ancestor, as in the monitored page.
\<close>

record anchor =
  href :: string
  roleLink :: bool
  inCaret :: bool
  inCardWrapper :: bool

record span =
  spanText :: string
  divLinkText :: "string option"

record timeElement =
  datetime :: "string option"
  timeText :: string

record tweet =
  node :: nat
  attrs :: "string \<Rightarrow> string option"
  anchors :: "anchor list"
  spans :: "span list"
  timeEl :: "timeElement option"
  replyIndicator :: bool
  indented :: bool
  quotedText :: bool
  textContent :: string
  cellLinks :: "string list"

text \<open>
  \<open>node\<close> names the DOM node; \<open>anchors\<close> and \<open>spans\<close> are in document order;
  \<open>divLinkText\<close> is the text of the first \<open>a[href*="/"]\<close> in the span's closest
  \<open>div\<close>; \<open>cellLinks\<close> are the \<open>href\<close>s of the status links of the enclosing
  \<open>cellInnerDiv\<close> that lie outside this tweet (none when there is no such container).
\<close>

record stats =
  hidden :: nat
  shown :: nat
  hiddenByFollowers :: nat

text \<open>
  The module-level variables that classification reads and writes, and the set of nodes
  that carry the class \<open>reply-guy-filtered-tweet\<close>.
\<close>

record state =
  statsCounter :: stats
  filteredParentIds :: "string set"
  allFilteredTweets :: "string set"
  filteredClass :: "nat set"

text \<open>
  The \<open>settings\<close> object. The classification engine is modelled for settings that hold
  numbers and booleans, as the popup stores them; the load callback is modelled on raw
  JavaScript values (see below), with the same four keys.
\<close>

record ('n, 'b) settings_of =
  maxAge :: 'n
  enabled :: 'b
  followerFilterEnabled :: 'b
  minFollowers :: 'n

type_synonym settings = "(int, bool) settings_of"

text \<open>
  What the host provides: the clock (\<open>Date.now()\<close>, read once for a pass), the parser
  behind \<open>new Date(string)\<close> (\<open>None\<close> is an invalid date), the location, the text of
  the selected tab, the profile summaries by handle and the spans of the hover card.
\<close>

record env =
  now :: int
  dateParse :: "string \<Rightarrow> int option"
  pathname :: string
  selectedTab :: "string option"
  profileHeader :: "string \<Rightarrow> string option"
  hoverCard :: "string list option"

definition isForYouFeed :: "env \<Rightarrow> bool" where
  "isForYouFeed e =
     (if str_includes (pathname e) ''/status/'' then False
      else if list_ex (\<lambda>w. startsWith (pathname e) (CHR ''/'' # w))
                [''explore'', ''notifications'', ''messages'', ''i'', ''lists'',
                 ''bookmarks'', ''verified'', ''tos'', ''privacy''] then False
      else if pathname e = ''/'' \<or> pathname e = ''/home''
        then (case selectedTab e of
                None \<Rightarrow> False
              | Some txt \<Rightarrow> str_includes (toLowerCase txt) ''for you'')
      else False)"

section \<open>Identity and relationship resolvers\<close>

definition statusAnchors :: "tweet \<Rightarrow> anchor list" where
  "statusAnchors t = filter (\<lambda>a. str_includes (href a) ''/status/'') (anchors t)"

definition getTweetId :: "tweet \<Rightarrow> string option" where
  "getTweetId t =
     (let tweetId = js_or (attrs t ''data-tweet-id'') (attrs t ''data-status-id'') in
      if truthy tweetId then tweetId
      else (case statusAnchors t of
              [] \<Rightarrow> None
            | statusLink # _ \<Rightarrow> statusMatch (href statusLink)))"

text \<open>The loop of method 2: skip caret and card links, return the first match.\<close>

fun conversationLink :: "anchor list \<Rightarrow> string option" where
  "conversationLink [] = None"
| "conversationLink (l # ls) =
     (if inCaret l then conversationLink ls
      else if inCardWrapper l then conversationLink ls
      else (case statusMatch (href l) of
              Some m \<Rightarrow> Some m
            | None \<Rightarrow> conversationLink ls))"

fun threadLink :: "string list \<Rightarrow> string option" where
  "threadLink [] = None"
| "threadLink (h # hs) =
     (case statusMatch h of Some m \<Rightarrow> Some m | None \<Rightarrow> threadLink hs)"

definition replyingToSpan :: "tweet \<Rightarrow> span option" where
  "replyingToSpan t =
     (case filter (\<lambda>sp. spanText sp \<noteq> [] \<and> str_includes (toLowerCase (spanText sp)) ''replying to'')
             (spans t) of
        [] \<Rightarrow> None
      | sp # _ \<Rightarrow> Some sp)"

definition userElement :: "tweet \<Rightarrow> anchor option" where
  "userElement t =
     (case filter (\<lambda>a. roleLink a \<and> startsWith (href a) ''/'') (anchors t) of
        [] \<Rightarrow> None
      | a # _ \<Rightarrow> Some a)"

text \<open>The loop of method 4 over the tweets that carry the filtered class.\<close>

fun filteredFromUser :: "string \<Rightarrow> tweet list \<Rightarrow> string option" where
  "filteredFromUser username [] = None"
| "filteredFromUser username (ft # fts) =
     (case userElement ft of
        None \<Rightarrow> filteredFromUser username fts
      | Some u \<Rightarrow>
          if firstSegment (href u) = username \<and> truthy (getTweetId ft)
          then getTweetId ft
          else filteredFromUser username fts)"

definition getTweetConversationId :: "tweet list \<Rightarrow> state \<Rightarrow> tweet \<Rightarrow> string option" where
  "getTweetConversationId doc st t =
     (let conversationId =
            js_or (attrs t ''data-conversation-id'')
              (js_or (attrs t ''data-converation-id'') (attrs t ''data-tweet-conversation-id''))
      in
      if truthy conversationId then conversationId
      else (case conversationLink (statusAnchors t) of
        Some m \<Rightarrow> Some m
      | None \<Rightarrow> (case threadLink (cellLinks t) of
        Some m \<Rightarrow> Some m
      | None \<Rightarrow> (case replyingToSpan t of
        None \<Rightarrow> None
      | Some sp \<Rightarrow> (case divLinkText sp of
        None \<Rightarrow> None
      | Some txt \<Rightarrow>
          filteredFromUser (removeFirst CHR ''@'' txt)
            (filter (\<lambda>ft. node ft \<in> filteredClass st) doc))))))"

definition isTweetReply :: "tweet \<Rightarrow> bool" where
  "isTweetReply t =
     (if replyIndicator t then True
      else if list_ex (\<lambda>sp. spanText sp \<noteq> [] \<and>
                (str_includes (toLowerCase (spanText sp)) ''replying to'' \<or>
                 str_includes (toLowerCase (spanText sp)) ''replying'')) (spans t) then True
      else if (case filter (\<lambda>a. str_includes (href a) ''/status/'' \<and> roleLink a \<and>
                                  \<not> endsWith (href a) ''/photo/1'') (anchors t) of
                 [] \<Rightarrow> False
               | hasReplyContext # _ \<Rightarrow>
                   (case getTweetId t of
                      None \<Rightarrow> True
                    | Some tweetId \<Rightarrow> \<not> str_includes (href hasReplyContext) tweetId)) then True
      else if indented t then True
      else if quotedText t then True
      else (let tweetText = toLowerCase (trim (textContent t)) in
            startsWith tweetText ''@'' \<or>
            str_includes tweetText ''no, '' \<or>
            str_includes tweetText ''yes, '' \<or>
            str_includes tweetText ''i agree'' \<or>
            str_includes tweetText ''disagree'' \<or>
            str_includes tweetText ''there was a time when''))"

fun filteredAuthor :: "string \<Rightarrow> state \<Rightarrow> tweet list \<Rightarrow> bool" where
  "filteredAuthor username st [] = False"
| "filteredAuthor username st (t # ts) =
     (if node t \<in> filteredClass st
      then (case userElement t of
              None \<Rightarrow> filteredAuthor username st ts
            | Some u \<Rightarrow>
                if toLowerCase (firstSegment (href u)) = username then True
                else filteredAuthor username st ts)
      else filteredAuthor username st ts)"

definition isReplyingToFilteredUser :: "tweet list \<Rightarrow> state \<Rightarrow> tweet \<Rightarrow> bool" where
  "isReplyingToFilteredUser doc st t =
     (case replyingToSpan t of
        None \<Rightarrow> False
      | Some sp \<Rightarrow> (case divLinkText sp of
          None \<Rightarrow> False
        | Some txt \<Rightarrow> filteredAuthor (toLowerCase (trim (removeFirst CHR ''@'' txt))) st doc))"

section \<open>Criteria evaluators\<close>

text \<open>
  A \<open>Date\<close> is its time value in milliseconds, \<open>None\<close> for an invalid date (time value
  \<open>NaN\<close>). \<open>new Date(now - n * unit)\<close> is invalid when \<open>parseInt\<close> gave \<open>NaN\<close>.
\<close>

definition relativeDate :: "env \<Rightarrow> int option \<Rightarrow> int \<Rightarrow> int option" where
  "relativeDate e n unit = (case n of None \<Rightarrow> None | Some k \<Rightarrow> Some (now e - k * unit))"

definition parseTweetTime :: "env \<Rightarrow> timeElement \<Rightarrow> int option" where
  "parseTweetTime e timeElement =
     (if truthy (datetime timeElement)
      then (case datetime timeElement of Some dateTimeAttr \<Rightarrow> dateParse e dateTimeAttr | None \<Rightarrow> None)
      else (let timeText = toLowerCase (trim (timeText timeElement)) in
        if str_includes timeText ''now'' \<or> str_includes timeText ''just now'' then Some (now e)
        else if str_includes timeText ''m'' then relativeDate e (parseInt timeText) 60000
        else if str_includes timeText ''h'' then relativeDate e (parseInt timeText) 3600000
        else if str_includes timeText ''d'' then relativeDate e (parseInt timeText) 86400000
        else if str_includes timeText ''s'' then relativeDate e (parseInt timeText) 1000
        else (case dateParse e timeText of
                Some parsedDate \<Rightarrow> Some parsedDate
              | None \<Rightarrow> Some 0)))"

definition cutoffTime :: "env \<Rightarrow> settings \<Rightarrow> int option" where
  "cutoffTime e s = Some (now e - maxAge s * 60000)"

text \<open>\<open>a <= b\<close> on two dates: false as soon as one of them is invalid.\<close>

definition dateLe :: "int option \<Rightarrow> int option \<Rightarrow> bool" where
  "dateLe a b =
     (case a of None \<Rightarrow> False | Some x \<Rightarrow> (case b of None \<Rightarrow> False | Some y \<Rightarrow> x \<le> y))"

text \<open>The test \<open>tweetTime <= cutoffTime\<close> of the passes.\<close>

definition tooOld :: "env \<Rightarrow> settings \<Rightarrow> timeElement \<Rightarrow> bool" where
  "tooOld e s timestamp = dateLe (parseTweetTime e timestamp) (cutoffTime e s)"

text \<open>
  One attempt of \<open>/(\d+(?:\.\d+)?)\s*([KkMmBb]?)\s*(?:Follower|Followers)/\<close> at the head of
  a string: the integer digits, the fraction digits and the suffix letter it captures.
  Each greedy part has one way to match, so no backtracking is lost.
\<close>

definition followerMatchAt :: "string \<Rightarrow> (string \<times> string \<times> string) option" where
  "followerMatchAt s =
     (let ds = takeWhile isDigit s; r1 = dropWhile isDigit s in
      if ds = [] then None
      else
        (let fs = (case r1 of
                     [] \<Rightarrow> []
                   | c # r \<Rightarrow> if c = CHR ''.'' then takeWhile isDigit r else []);
             r2 = (if fs = [] then r1 else dropWhile isDigit (tl r1));
             r3 = dropWhile isSpace r2;
             m = (case r3 of [] \<Rightarrow> [] | c # r \<Rightarrow> if c \<in> set ''KkMmBb'' then [c] else []);
             r4 = dropWhile isSpace (drop (length m) r3)
         in if startsWith r4 ''Follower'' then Some (ds, fs, m) else None))"

text \<open>The leftmost match of the pattern in the text.\<close>

fun followerMatch :: "string \<Rightarrow> (string \<times> string \<times> string) option" where
  "followerMatch [] = None"
| "followerMatch (c # cs) =
     (case followerMatchAt (c # cs) of
        Some r \<Rightarrow> Some r
      | None \<Rightarrow> followerMatch cs)"

text \<open>
  The numbers of the follower count are IEEE 754 binary64 values, and the script rounds
  twice: \<open>parseFloat\<close> gives the double nearest to the decimal text and \<open>count *= 1000\<close>
  the double nearest to the product, ties going to the even significand. A finite double
  that is not negative is kept as \<open>Fin m e\<close>, the number \<open>m * 2 ^ e\<close>; \<open>Inf\<close> is \<open>Infinity\<close>.
\<close>

datatype double = Fin int int | Inf

text \<open>The number of binary digits of a natural number.\<close>

fun bitLength :: "nat \<Rightarrow> nat" where
  "bitLength n = (if n = 0 then 0 else Suc (bitLength (n div 2)))"

declare bitLength.simps [simp del]

text \<open>The integer nearest to \<open>n / d\<close> for \<open>d > 0\<close>, the even one of two that are as near.\<close>

definition roundNearestEven :: "int \<Rightarrow> int \<Rightarrow> int" where
  "roundNearestEven n d =
     (let f = n div d; r = n mod d in
      if 2 * r < d then f
      else if d < 2 * r then f + 1
      else if even f then f else f + 1)"

text \<open>
  The double nearest to \<open>n / d\<close>, for \<open>n \<ge> 0\<close> and \<open>d > 0\<close>. \<open>l\<close> is the binary exponent of
  the quotient (\<open>2 ^ l \<le> n / d < 2 ^ (l + 1)\<close>); the significand has 53 bits, fewer below
  the smallest normal number (the exponent stops at \<open>-1074\<close>); a result of \<open>2 ^ 1024\<close> or
  more is \<open>Infinity\<close>.
\<close>

definition toDouble :: "int \<Rightarrow> int \<Rightarrow> double" where
  "toDouble n d =
     (if n = 0 then Fin 0 0
      else
        (let k = int (bitLength (nat n)) - int (bitLength (nat d));
             l = (if (if 0 \<le> k then d * 2 ^ nat k \<le> n else d \<le> n * 2 ^ nat (- k))
                  then k else k - 1);
             e = max (l - 52) (- 1074);
             m = (if 0 \<le> e then roundNearestEven n (d * 2 ^ nat e)
                  else roundNearestEven (n * 2 ^ nat (- e)) d)
         in if 0 \<le> e then (if 2 ^ 1024 \<le> m * 2 ^ nat e then Inf else Fin m e)
            else Fin m e))"

text \<open>\<open>x * k\<close> for a positive integer \<open>k\<close> that is itself a double.\<close>

definition timesDouble :: "double \<Rightarrow> int \<Rightarrow> double" where
  "timesDouble x k =
     (case x of
        Inf \<Rightarrow> Inf
      | Fin m e \<Rightarrow>
          if 0 \<le> e then toDouble (m * k * 2 ^ nat e) 1
          else toDouble (m * k) (2 ^ nat (- e)))"

text \<open>The result of \<open>Math.floor\<close>: an integer or \<open>Infinity\<close>.\<close>

datatype jsnum = Num int | Infinity

definition floorDouble :: "double \<Rightarrow> jsnum" where
  "floorDouble x =
     (case x of
        Inf \<Rightarrow> Infinity
      | Fin m e \<Rightarrow> Num (if 0 \<le> e then m * 2 ^ nat e else m div 2 ^ nat (- e)))"

text \<open>\<open>a < b\<close> for a count and an integer threshold.\<close>

definition numLess :: "jsnum \<Rightarrow> int \<Rightarrow> bool" where
  "numLess a b = (case a of Num n \<Rightarrow> n < b | Infinity \<Rightarrow> False)"

text \<open>
  \<open>parseFloat(match[1])\<close> on the captured digits \<open>ds\<close> or \<open>ds.fs\<close>, and the multiplication
  that the suffix selects.
\<close>

definition parseFloat :: "string \<Rightarrow> string \<Rightarrow> double" where
  "parseFloat ds fs = toDouble (decimal (ds @ fs)) (10 ^ length fs)"

definition scaleCount :: "double \<Rightarrow> string \<Rightarrow> double" where
  "scaleCount count m =
     (let multiplier = toLowerCase m in
      if multiplier = ''k'' then timesDouble count 1000
      else if multiplier = ''m'' then timesDouble count 1000000
      else if multiplier = ''b'' then timesDouble count 1000000000
      else count)"

definition extractFollowerCountFromText :: "string \<Rightarrow> jsnum option" where
  "extractFollowerCountFromText txt =
     (if txt = [] then None
      else (case followerMatch txt of
              Some (ds, fs, m) \<Rightarrow> Some (floorDouble (scaleCount (parseFloat ds fs) m))
            | None \<Rightarrow> None))"

definition parseFollowerCount :: "env \<Rightarrow> tweet \<Rightarrow> jsnum option" where
  "parseFollowerCount e tweetElement =
     (case userElement tweetElement of
        None \<Rightarrow> None
      | Some profileLink \<Rightarrow>
          (let username = firstSegment (href profileLink) in
           if username = [] then None
           else (case profileHeader e username of
                   Some existingProfileData \<Rightarrow> extractFollowerCountFromText existingProfileData
                 | None \<Rightarrow>
                     (case hoverCard e of
                        None \<Rightarrow> None
                      | Some cardSpans \<Rightarrow>
                          (case filter (\<lambda>sp. sp \<noteq> [] \<and> str_includes sp ''Followers'') cardSpans of
                             [] \<Rightarrow> None
                           | followerText # _ \<Rightarrow> extractFollowerCountFromText followerText)))))"

section \<open>The classification engine\<close>

text \<open>The values of \<open>filterReason\<close>; the empty string is \<open>None\<close>.\<close>

datatype reason = Previously_filtered | Parent_filtered | Time | Followers

text \<open>\<open>if (id) set.add(id)\<close> and \<open>id && set.has(id)\<close>.\<close>

definition addId :: "string option \<Rightarrow> string set \<Rightarrow> string set" where
  "addId i S = (case i of None \<Rightarrow> S | Some x \<Rightarrow> if x = [] then S else insert x S)"

definition hasId :: "string set \<Rightarrow> string option \<Rightarrow> bool" where
  "hasId S i = (case i of None \<Rightarrow> False | Some x \<Rightarrow> x \<noteq> [] \<and> x \<in> S)"

definition deleteId :: "string option \<Rightarrow> string set \<Rightarrow> string set" where
  "deleteId i S = (case i of None \<Rightarrow> S | Some x \<Rightarrow> if x = [] then S else S - {x})"

text \<open>
  The time check of the main loops. It leaves \<open>shouldFilter\<close> and \<open>filterReason\<close> as they
  are unless the tweet is too old; a root tweet is remembered as a filtered parent.
\<close>

definition timeCheck ::
  "env \<Rightarrow> settings \<Rightarrow> tweet \<Rightarrow> string option \<Rightarrow> bool \<Rightarrow> string option \<Rightarrow> state
     \<Rightarrow> reason option \<times> state" where
  "timeCheck e s t tweetId isReply conversationId st =
     (case timeEl t of
        None \<Rightarrow> (None, st)
      | Some timestamp \<Rightarrow>
          if tooOld e s timestamp
          then (Some Time,
                if \<not> isReply
                then st\<lparr>filteredParentIds := addId conversationId (addId tweetId (filteredParentIds st)),
                        allFilteredTweets := addId tweetId (allFilteredTweets st)\<rparr>
                else st\<lparr>allFilteredTweets := addId tweetId (allFilteredTweets st)\<rparr>)
          else (None, st))"

text \<open>The follower check, entered only while the tweet is still visible.\<close>

definition followerCheck ::
  "env \<Rightarrow> settings \<Rightarrow> tweet \<Rightarrow> string option \<Rightarrow> reason option \<times> state \<Rightarrow> reason option \<times> state" where
  "followerCheck e s t tweetId rs =
     (if fst rs = None \<and> followerFilterEnabled s
      then (case parseFollowerCount e t of
              None \<Rightarrow> rs
            | Some followerCount \<Rightarrow>
                if numLess followerCount (minFollowers s)
                then (Some Followers,
                      (snd rs)\<lparr>allFilteredTweets := addId tweetId (allFilteredTweets (snd rs))\<rparr>)
                else rs)
      else rs)"

text \<open>The decision of one tweet: \<open>filterReason\<close> and the propagation memory after it.\<close>

definition decide ::
  "env \<Rightarrow> settings \<Rightarrow> tweet list \<Rightarrow> state \<Rightarrow> tweet \<Rightarrow> reason option \<times> state" where
  "decide e s doc st t =
     (let tweetId = getTweetId t in
      if hasId (allFilteredTweets st) tweetId then (Some Previously_filtered, st)
      else
        (let isReply = isTweetReply t;
             conversationId = getTweetConversationId doc st t
         in
         if isReply \<and> (hasId (filteredParentIds st) conversationId \<or> isReplyingToFilteredUser doc st t)
         then (Some Parent_filtered, st\<lparr>allFilteredTweets := addId tweetId (allFilteredTweets st)\<rparr>)
         else followerCheck e s t tweetId (timeCheck e s t tweetId isReply conversationId st)))"

text \<open>Applying the decision: the class of the node and the counters.\<close>

definition applyDecision :: "tweet \<Rightarrow> reason option \<times> state \<Rightarrow> state" where
  "applyDecision t rs =
     (let st = snd rs; c = statsCounter st in
      if fst rs \<noteq> None
      then st\<lparr>filteredClass := insert (node t) (filteredClass st),
              statsCounter :=
                c\<lparr>hiddenByFollowers := (if fst rs = Some Followers then hiddenByFollowers c + 1
                                         else hiddenByFollowers c),
                  hidden := hidden c + 1\<rparr>\<rparr>
      else st\<lparr>filteredClass := filteredClass st - {node t},
              allFilteredTweets := deleteId (getTweetId t) (allFilteredTweets st),
              statsCounter := c\<lparr>shown := shown c + 1\<rparr>\<rparr>)"

text \<open>
  The body of the \<open>forEach\<close> of both passes (it is the same text in
  \<open>processTweetsImmediately\<close> and in \<open>filterTweets\<close>).
\<close>

definition classifyTweet :: "env \<Rightarrow> settings \<Rightarrow> tweet list \<Rightarrow> tweet \<Rightarrow> state \<Rightarrow> state" where
  "classifyTweet e s doc t st = applyDecision t (decide e s doc st t)"

text \<open>The first loop of \<open>filterTweets\<close>: parent tweets that are too old.\<close>

definition seedParent :: "env \<Rightarrow> settings \<Rightarrow> tweet list \<Rightarrow> tweet \<Rightarrow> state \<Rightarrow> state" where
  "seedParent e s doc t st =
     (if \<not> isTweetReply t
      then (case timeEl t of
              None \<Rightarrow> st
            | Some timestamp \<Rightarrow>
                if tooOld e s timestamp
                then st\<lparr>filteredParentIds :=
                          addId (getTweetConversationId doc st t) (addId (getTweetId t) (filteredParentIds st)),
                        allFilteredTweets := addId (getTweetId t) (allFilteredTweets st)\<rparr>
                else st)
      else st)"

text \<open>
  The loop of \<open>preScanForTweetsToFilter\<close>, run once when the filter is initialised: every
  tweet that is too old is recorded, reply or not.
\<close>

definition preScanTweet :: "env \<Rightarrow> settings \<Rightarrow> tweet list \<Rightarrow> tweet \<Rightarrow> state \<Rightarrow> state" where
  "preScanTweet e s doc t st =
     (case timeEl t of
        None \<Rightarrow> st
      | Some timestamp \<Rightarrow>
          if tooOld e s timestamp
          then st\<lparr>filteredParentIds :=
                    addId (getTweetConversationId doc st t) (addId (getTweetId t) (filteredParentIds st)),
                  allFilteredTweets := addId (getTweetId t) (allFilteredTweets st)\<rparr>
          else st)"

definition preScanForTweetsToFilter :: "env \<Rightarrow> settings \<Rightarrow> tweet list \<Rightarrow> state \<Rightarrow> state" where
  "preScanForTweetsToFilter e s doc st = fold (preScanTweet e s doc) doc st"

definition resetCounters :: "state \<Rightarrow> state" where
  "resetCounters st = st\<lparr>statsCounter := \<lparr>hidden = 0, shown = 0, hiddenByFollowers = 0\<rparr>\<rparr>"

text \<open>
  The full reconciliation pass over the tweets of the document, and the incremental pass
  over the tweets that a mutation added. The "show more" links, the button and the
  counter widget that the passes also update do not touch this state.
\<close>

definition filterTweets :: "env \<Rightarrow> settings \<Rightarrow> tweet list \<Rightarrow> state \<Rightarrow> state" where
  "filterTweets e s doc st =
     (if \<not> isForYouFeed e then st
      else fold (classifyTweet e s doc) doc (fold (seedParent e s doc) doc (resetCounters st)))"

definition processTweetsImmediately ::
  "env \<Rightarrow> settings \<Rightarrow> tweet list \<Rightarrow> tweet list \<Rightarrow> state \<Rightarrow> state" where
  "processTweetsImmediately e s doc tweets st = fold (classifyTweet e s doc) tweets st"

text \<open>
  The decision that a pass takes for each tweet, in order: the trace of \<open>filterReason\<close>
  along the main loop that starts in the given state.
\<close>

fun decisions :: "env \<Rightarrow> settings \<Rightarrow> tweet list \<Rightarrow> tweet list \<Rightarrow> state \<Rightarrow> reason option list" where
  "decisions e s doc [] st = []"
| "decisions e s doc (t # ts) st =
     fst (decide e s doc st t) # decisions e s doc ts (classifyTweet e s doc t st)"

section \<open>Sample data\<close>

text \<open>
  The settings and the module state as the script initialises them, and a small feed:
  a root tweet that is 130 minutes old, a reply in its conversation, and a recent root
  tweet by an author with 1500 followers.
\<close>

definition defaultSettings :: settings where
  "defaultSettings =
     \<lparr>maxAge = 120, enabled = True, followerFilterEnabled = False, minFollowers = 2000\<rparr>"

definition initialState :: state where
  "initialState =
     \<lparr>statsCounter = \<lparr>hidden = 0, shown = 0, hiddenByFollowers = 0\<rparr>,
      filteredParentIds = {}, allFilteredTweets = {}, filteredClass = {}\<rparr>"

definition sampleDates :: "string \<Rightarrow> int option" where
  "sampleDates = map_of
     [(''2024-07-03T10:00:00.000Z'', 1720000800000),
      (''2024-07-03T10:10:00.000Z'', 1720001400000),
      (''2024-07-03T12:00:00.000Z'', 1720008000000)]"

definition sampleEnv :: env where
  "sampleEnv =
     \<lparr>now = 1720008600000, dateParse = sampleDates, pathname = ''/home'',
      selectedTab = Some ''For you'', profileHeader = map_of [(''bob'', ''1500 Followers'')],
      hoverCard = None\<rparr>"

definition plainTweet :: tweet where
  "plainTweet =
     \<lparr>node = 0, attrs = Map.empty, anchors = [], spans = [], timeEl = None,
      replyIndicator = False, indented = False, quotedText = False, textContent = [],
      cellLinks = []\<rparr>"

definition linkTo :: "string \<Rightarrow> anchor" where
  "linkTo h = \<lparr>href = h, roleLink = True, inCaret = False, inCardWrapper = False\<rparr>"

definition sampleRoot :: tweet where
  "sampleRoot = plainTweet
     \<lparr>node := 1,
      anchors := [linkTo ''/alice'', linkTo ''/alice/status/100''],
      timeEl := Some \<lparr>datetime = Some ''2024-07-03T10:00:00.000Z'', timeText = ''Jul 3''\<rparr>,
      textContent := ''good morning''\<rparr>"

definition sampleReply :: tweet where
  "sampleReply = plainTweet
     \<lparr>node := 2,
      attrs := [''data-tweet-id'' \<mapsto> ''200'', ''data-conversation-id'' \<mapsto> ''100''],
      anchors := [linkTo ''/carol''],
      timeEl := Some \<lparr>datetime = Some ''2024-07-03T12:00:00.000Z'', timeText = ''10m''\<rparr>,
      replyIndicator := True\<rparr>"

definition sampleRecent :: tweet where
  "sampleRecent = plainTweet
     \<lparr>node := 3,
      attrs := [''data-tweet-id'' \<mapsto> ''300''],
      anchors := [linkTo ''/bob''],
      timeEl := Some \<lparr>datetime = Some ''2024-07-03T12:00:00.000Z'', timeText = ''10m''\<rparr>,
      textContent := ''lunch''\<rparr>"

definition sampleFeed :: "tweet list" where
  "sampleFeed = [sampleReply, sampleRoot, sampleRecent]"

text \<open>A root tweet stamped exactly at the cutoff of the sample clock (120 minutes ago).\<close>

definition sampleBoundary :: tweet where
  "sampleBoundary = plainTweet
     \<lparr>node := 4,
      attrs := [''data-tweet-id'' \<mapsto> ''400''],
      anchors := [linkTo ''/dave''],
      timeEl := Some \<lparr>datetime = Some ''2024-07-03T10:10:00.000Z'', timeText = ''2h''\<rparr>,
      textContent := ''on the dot''\<rparr>"

text \<open>
  A recent reply that names the author of \<open>sampleRecent\<close> in its "Replying to" line, the
  feed of the two, and the default settings with the follower filter switched on.
\<close>

definition sampleReplyToBob :: tweet where
  "sampleReplyToBob = plainTweet
     \<lparr>node := 5,
      attrs := [''data-tweet-id'' \<mapsto> ''500''],
      anchors := [linkTo ''/carol''],
      spans := [\<lparr>spanText = ''Replying to @bob'', divLinkText = Some ''@bob''\<rparr>],
      timeEl := Some \<lparr>datetime = Some ''2024-07-03T12:00:00.000Z'', timeText = ''10m''\<rparr>\<rparr>"

definition replyFeed :: "tweet list" where
  "replyFeed = [sampleReplyToBob, sampleRecent]"

definition followerSettings :: settings where
  "followerSettings = defaultSettings\<lparr>followerFilterEnabled := True\<rparr>"

section \<open>Observing a full pass\<close>

text \<open>
  The state in which the main loop of \<open>filterTweets\<close> reaches the tweet at position \<open>k\<close>
  (after the first loop and the first \<open>k\<close> tweets), and the reasons that the main loop
  assigns, in document order.
\<close>

definition stateBefore :: "env \<Rightarrow> settings \<Rightarrow> tweet list \<Rightarrow> state \<Rightarrow> nat \<Rightarrow> state" where
  "stateBefore e s doc st k =
     fold (classifyTweet e s doc) (take k doc) (fold (seedParent e s doc) doc (resetCounters st))"

definition fullPassDecisions :: "env \<Rightarrow> settings \<Rightarrow> tweet list \<Rightarrow> state \<Rightarrow> reason option list" where
  "fullPassDecisions e s doc st =
     decisions e s doc doc (fold (seedParent e s doc) doc (resetCounters st))"

section \<open>The classification order as the specification words it\<close>

datatype decision = Shown | Filtered reason

definition previouslyFiltered :: "state \<Rightarrow> tweet \<Rightarrow> bool" where
  "previouslyFiltered st t = hasId (allFilteredTweets st) (getTweetId t)"

definition parentCascade :: "tweet list \<Rightarrow> state \<Rightarrow> tweet \<Rightarrow> bool" where
  "parentCascade doc st t =
     (isTweetReply t \<and>
      (hasId (filteredParentIds st) (getTweetConversationId doc st t) \<or>
       isReplyingToFilteredUser doc st t))"

definition ageCriterion :: "env \<Rightarrow> settings \<Rightarrow> tweet \<Rightarrow> bool" where
  "ageCriterion e s t = (case timeEl t of None \<Rightarrow> False | Some timestamp \<Rightarrow> tooOld e s timestamp)"

definition followerCriterion :: "env \<Rightarrow> settings \<Rightarrow> tweet \<Rightarrow> bool" where
  "followerCriterion e s t =
     (followerFilterEnabled s \<and>
      (case parseFollowerCount e t of None \<Rightarrow> False | Some n \<Rightarrow> numLess n (minFollowers s)))"

text \<open>Rules 1 to 5 of the engine, first match wins.\<close>

definition priorityDecision :: "env \<Rightarrow> settings \<Rightarrow> tweet list \<Rightarrow> state \<Rightarrow> tweet \<Rightarrow> decision" where
  "priorityDecision e s doc st t =
     (if previouslyFiltered st t then Filtered Previously_filtered
      else if parentCascade doc st t then Filtered Parent_filtered
      else if ageCriterion e s t then Filtered Time
      else if followerCriterion e s t then Filtered Followers
      else Shown)"

definition reasonOf :: "decision \<Rightarrow> reason option" where
  "reasonOf d = (case d of Shown \<Rightarrow> None | Filtered r \<Rightarrow> Some r)"

section \<open>Loading the stored settings\<close>

text \<open>
  The values that \<open>chrome.storage\<close> can hand to the callback (numbers are integers or
  \<open>NaN\<close> here), their truthiness and their \<open>typeof\<close>. A key that is not stored reads as
  \<open>undefined\<close>.
\<close>

datatype jsval = JUndefined | JNull | JBool bool | JNumber int | JNaN | JString string | JObject

definition toBoolean :: "jsval \<Rightarrow> bool" where
  "toBoolean v =
     (case v of
        JUndefined \<Rightarrow> False
      | JNull \<Rightarrow> False
      | JBool b \<Rightarrow> b
      | JNumber n \<Rightarrow> n \<noteq> 0
      | JNaN \<Rightarrow> False
      | JString str \<Rightarrow> str \<noteq> []
      | JObject \<Rightarrow> True)"

definition typeof :: "jsval \<Rightarrow> string" where
  "typeof v =
     (case v of
        JUndefined \<Rightarrow> ''undefined''
      | JNull \<Rightarrow> ''object''
      | JBool b \<Rightarrow> ''boolean''
      | JNumber n \<Rightarrow> ''number''
      | JNaN \<Rightarrow> ''number''
      | JString str \<Rightarrow> ''string''
      | JObject \<Rightarrow> ''object'')"

type_synonym jsSettings = "(jsval, jsval) settings_of"

text \<open>The initial value of \<open>settings\<close> and the four assignments of the load callback.\<close>

definition initialSettings :: jsSettings where
  "initialSettings =
     \<lparr>maxAge = JNumber 120, enabled = JBool True, followerFilterEnabled = JBool False,
      minFollowers = JNumber 2000\<rparr>"

definition loadSettings :: "jsSettings \<Rightarrow> jsSettings \<Rightarrow> jsSettings" where
  "loadSettings result st =
     (let s1 = (if toBoolean (maxAge result) then st\<lparr>maxAge := maxAge result\<rparr> else st);
          s2 = (if typeof (enabled result) = ''boolean''
                then s1\<lparr>enabled := enabled result\<rparr> else s1);
          s3 = (if typeof (followerFilterEnabled result) = ''boolean''
                then s2\<lparr>followerFilterEnabled := followerFilterEnabled result\<rparr> else s2);
          s4 = (if typeof (minFollowers result) = ''number''
                then s3\<lparr>minFollowers := minFollowers result\<rparr> else s3)
      in s4)"

text \<open>A stored record with a text for \<open>maxAge\<close> and a zero \<open>minFollowers\<close>.\<close>

definition malformedRecord :: jsSettings where
  "malformedRecord =
     \<lparr>maxAge = JString ''soon'', enabled = JUndefined, followerFilterEnabled = JString ''yes'',
      minFollowers = JNumber 0\<rparr>"

text \<open>
  A tweet whose time element has no \<open>datetime\<close> attribute and shows an absolute date, as
  the page prints the date of an older tweet.
\<close>

definition sampleUndated :: tweet where
  "sampleUndated = plainTweet
     \<lparr>node := 6,
      attrs := [''data-tweet-id'' \<mapsto> ''600''],
      anchors := [linkTo ''/erin''],
      timeEl := Some \<lparr>datetime = None, timeText = ''Mar 5''\<rparr>,
      textContent := ''spring''\<rparr>"

section \<open>The follower text as the specification words it\<close>



section \<open>Facts about the resolvers and the decision step\<close>

text \<open>The defining equations, grouped for evaluation on concrete inputs.\<close>

lemmas string_defs = truthy_def js_or_def isDigit_def isSpace_def digitVal_def decimal_def
  toLowerChar_def toLowerCase_def trim_def endsWith_def firstSegment_def isHexDigit_def
  hexVal_def parseDigits_def parseInt_def

lemmas resolver_defs = statusAnchors_def getTweetId_def replyingToSpan_def userElement_def
  getTweetConversationId_def isTweetReply_def isReplyingToFilteredUser_def isForYouFeed_def

lemmas double_defs = bitLength.simps roundNearestEven_def toDouble_def timesDouble_def
  floorDouble_def numLess_def parseFloat_def scaleCount_def Let_def

lemmas evaluator_defs = relativeDate_def parseTweetTime_def cutoffTime_def dateLe_def tooOld_def
  followerMatchAt_def extractFollowerCountFromText_def parseFollowerCount_def double_defs

lemmas engine_defs = addId_def hasId_def deleteId_def timeCheck_def followerCheck_def decide_def
  applyDecision_def classifyTweet_def seedParent_def resetCounters_def filterTweets_def
  processTweetsImmediately_def

lemmas sample_defs = defaultSettings_def initialState_def sampleDates_def sampleEnv_def
  plainTweet_def linkTo_def sampleRoot_def sampleReply_def sampleRecent_def sampleFeed_def
  sampleBoundary_def sampleReplyToBob_def replyFeed_def followerSettings_def sampleUndated_def

lemma sampleRoot_id: "getTweetId sampleRoot = Some ''100''"
  by (simp add: sample_defs resolver_defs string_defs)

lemma sampleEnv_onFeed: "isForYouFeed sampleEnv"
  by (simp add: sample_defs resolver_defs string_defs)


lemma statusMatch_nonempty: "statusMatch h = Some m \<Longrightarrow> m \<noteq> []"
  by (induction h rule: statusMatch.induct) (auto split: if_splits)

lemma getTweetId_nonempty: "getTweetId t = Some i \<Longrightarrow> i \<noteq> []"
  by (auto simp: getTweetId_def Let_def truthy_def js_or_def statusMatch_nonempty
      split: if_splits option.splits list.splits)

lemma addId_mono: "S \<subseteq> addId i S"
  by (auto simp: addId_def split: option.splits)

lemma deleteId_noop: "\<not> hasId S i \<Longrightarrow> deleteId i S = S"
  by (auto simp: deleteId_def hasId_def split: option.splits)

lemma timeCheck_cases:
  "timeCheck e s t i r c st = (None, st) \<or>
   (\<exists>st'. timeCheck e s t i r c st = (Some Time, st') \<and>
      allFilteredTweets st' = addId i (allFilteredTweets st) \<and>
      filteredParentIds st \<subseteq> filteredParentIds st' \<and>
      filteredClass st' = filteredClass st \<and> statsCounter st' = statsCounter st)"
  by (auto simp: timeCheck_def addId_def split: option.splits)

lemma followerCheck_cases:
  "followerCheck e s t i (r, st) = (r, st) \<or>
   (r = None \<and> followerCheck e s t i (r, st) =
      (Some Followers, st\<lparr>allFilteredTweets := addId i (allFilteredTweets st)\<rparr>))"
  by (auto simp: followerCheck_def split: option.splits)

text \<open>
  The three ways a decision can end: shown with the memory untouched, filtered as known
  before with the memory untouched, or filtered with the tweet's identity remembered.
\<close>

lemma decide_cases:
  "(fst (decide e s doc st t) = None \<and> snd (decide e s doc st t) = st \<and>
      \<not> hasId (allFilteredTweets st) (getTweetId t)) \<or>
   (fst (decide e s doc st t) = Some Previously_filtered \<and> snd (decide e s doc st t) = st \<and>
      hasId (allFilteredTweets st) (getTweetId t)) \<or>
   (fst (decide e s doc st t) \<noteq> None \<and>
      allFilteredTweets (snd (decide e s doc st t)) = addId (getTweetId t) (allFilteredTweets st) \<and>
      filteredParentIds st \<subseteq> filteredParentIds (snd (decide e s doc st t)) \<and>
      filteredClass (snd (decide e s doc st t)) = filteredClass st \<and>
      statsCounter (snd (decide e s doc st t)) = statsCounter st)"
  using timeCheck_cases[of e s t "getTweetId t" "isTweetReply t" "getTweetConversationId doc st t" st]
  apply (cases "hasId (allFilteredTweets st) (getTweetId t)")
   apply (simp add: decide_def)
  apply (cases "isTweetReply t \<and> (hasId (filteredParentIds st) (getTweetConversationId doc st t) \<or> isReplyingToFilteredUser doc st t)")
   apply (simp add: decide_def)
  apply (erule disjE)
  subgoal
    using followerCheck_cases[of e s t "getTweetId t" None st]
    by (auto simp: decide_def Let_def)
  subgoal
    apply (erule exE)
    subgoal for st'
      using followerCheck_cases[of e s t "getTweetId t" "Some Time" st']
      by (auto simp: decide_def Let_def)
    done
  done

section \<open>Monotonic memory of filtered identities\<close>

lemma classifyTweet_allFiltered_mono:
  "allFilteredTweets st \<subseteq> allFilteredTweets (classifyTweet e s doc t st)"
  using decide_cases[of e s doc st t] addId_mono[of "allFilteredTweets st" "getTweetId t"]
  by (auto simp: classifyTweet_def applyDecision_def Let_def deleteId_noop)

lemma seedParent_allFiltered_mono:
  "allFilteredTweets st \<subseteq> allFilteredTweets (seedParent e s doc t st)"
  using addId_mono[of "allFilteredTweets st" "getTweetId t"]
  by (auto simp: seedParent_def split: option.splits)

lemma fold_classify_allFiltered_mono:
  "allFilteredTweets st \<subseteq> allFilteredTweets (fold (classifyTweet e s doc) ts st)"
proof (induction ts arbitrary: st)
  case Nil
  show ?case by simp
next
  case (Cons t ts)
  have "allFilteredTweets st \<subseteq> allFilteredTweets (classifyTweet e s doc t st)"
    by (rule classifyTweet_allFiltered_mono)
  also have "\<dots> \<subseteq> allFilteredTweets (fold (classifyTweet e s doc) ts (classifyTweet e s doc t st))"
    by (rule Cons.IH)
  finally show ?case by simp
qed

lemma fold_seed_allFiltered_mono:
  "allFilteredTweets st \<subseteq> allFilteredTweets (fold (seedParent e s doc) ts st)"
proof (induction ts arbitrary: st)
  case Nil
  show ?case by simp
next
  case (Cons t ts)
  have "allFilteredTweets st \<subseteq> allFilteredTweets (seedParent e s doc t st)"
    by (rule seedParent_allFiltered_mono)
  also have "\<dots> \<subseteq> allFilteredTweets (fold (seedParent e s doc) ts (seedParent e s doc t st))"
    by (rule Cons.IH)
  finally show ?case by simp
qed

lemma preScan_allFiltered_mono:
  "allFilteredTweets st \<subseteq> allFilteredTweets (fold (preScanTweet e s doc) ts st)"
proof (induction ts arbitrary: st)
  case Nil
  show ?case by simp
next
  case (Cons t ts)
  have "allFilteredTweets st \<subseteq> allFilteredTweets (preScanTweet e s doc t st)"
    using addId_mono[of "allFilteredTweets st" "getTweetId t"]
    by (auto simp: preScanTweet_def split: option.splits)
  also have "\<dots> \<subseteq> allFilteredTweets (fold (preScanTweet e s doc) ts (preScanTweet e s doc t st))"
    by (rule Cons.IH)
  finally show ?case by simp
qed

lemma filterTweets_allFiltered_mono:
  "allFilteredTweets st \<subseteq> allFilteredTweets (filterTweets e s doc st)"
proof (cases "isForYouFeed e")
  case False
  then show ?thesis by (simp add: filterTweets_def)
next
  case True
  have "allFilteredTweets st = allFilteredTweets (resetCounters st)"
    by (simp add: resetCounters_def)
  also have "\<dots> \<subseteq> allFilteredTweets (fold (seedParent e s doc) doc (resetCounters st))"
    by (rule fold_seed_allFiltered_mono)
  also have "\<dots> \<subseteq> allFilteredTweets
      (fold (classifyTweet e s doc) doc (fold (seedParent e s doc) doc (resetCounters st)))"
    by (rule fold_classify_allFiltered_mono)
  finally show ?thesis using True by (simp add: filterTweets_def)
qed

text \<open>
  Claim C1. A tweet whose identity is in \<open>allFilteredTweets\<close> when it is classified gets
  the reason \<open>previously_filtered\<close> and the filtered class. When a tweet is shown, its
  identity is not in the set, so the deletion of the shown branch changes nothing.
  Hence no step and no pass (incremental, full or the initial scan) removes an identity
  from the set.
\<close>

theorem filteredIds_monotonic:
  "(getTweetId t = Some i \<and> i \<in> allFilteredTweets st \<longrightarrow>
      fst (decide e s doc st t) = Some Previously_filtered \<and>
      node t \<in> filteredClass (classifyTweet e s doc t st)) \<and>
   (fst (decide e s doc st u) = None \<longrightarrow>
      \<not> hasId (allFilteredTweets (snd (decide e s doc st u))) (getTweetId u) \<and>
      deleteId (getTweetId u) (allFilteredTweets (snd (decide e s doc st u))) =
        allFilteredTweets (snd (decide e s doc st u))) \<and>
   allFilteredTweets st \<subseteq> allFilteredTweets (classifyTweet e s doc t st) \<and>
   allFilteredTweets st \<subseteq> allFilteredTweets (processTweetsImmediately e s doc tweets st) \<and>
   allFilteredTweets st \<subseteq> allFilteredTweets (filterTweets e s doc st) \<and>
   allFilteredTweets st \<subseteq> allFilteredTweets (preScanForTweetsToFilter e s doc st)"
proof (intro conjI impI)
  assume a: "getTweetId t = Some i \<and> i \<in> allFilteredTweets st"
  then have "hasId (allFilteredTweets st) (getTweetId t)"
    using getTweetId_nonempty[of t i] by (simp add: hasId_def)
  then show "fst (decide e s doc st t) = Some Previously_filtered"
    and "node t \<in> filteredClass (classifyTweet e s doc t st)"
    by (simp_all add: decide_def classifyTweet_def applyDecision_def Let_def)
next
  assume n: "fst (decide e s doc st u) = None"
  then show nh: "\<not> hasId (allFilteredTweets (snd (decide e s doc st u))) (getTweetId u)"
    using decide_cases[of e s doc st u] by auto
  then show "deleteId (getTweetId u) (allFilteredTweets (snd (decide e s doc st u))) =
        allFilteredTweets (snd (decide e s doc st u))"
    by (rule deleteId_noop)
next
  show "allFilteredTweets st \<subseteq> allFilteredTweets (classifyTweet e s doc t st)"
    by (rule classifyTweet_allFiltered_mono)
  show "allFilteredTweets st \<subseteq> allFilteredTweets (processTweetsImmediately e s doc tweets st)"
    unfolding processTweetsImmediately_def by (rule fold_classify_allFiltered_mono)
  show "allFilteredTweets st \<subseteq> allFilteredTweets (filterTweets e s doc st)"
    by (rule filterTweets_allFiltered_mono)
  show "allFilteredTweets st \<subseteq> allFilteredTweets (preScanForTweetsToFilter e s doc st)"
    unfolding preScanForTweetsToFilter_def by (rule preScan_allFiltered_mono)
qed

lemma sampleRecent_shown:
  "fst (decide sampleEnv defaultSettings sampleFeed
          (initialState\<lparr>allFilteredTweets := {''100''}\<rparr>) sampleRecent) = None"
  by (simp add: sample_defs engine_defs evaluator_defs resolver_defs string_defs)

theorem filteredIds_monotonic_witness:
  "getTweetId sampleRoot = Some ''100'' \<and>
   ''100'' \<in> allFilteredTweets (initialState\<lparr>allFilteredTweets := {''100''}\<rparr>) \<and>
   fst (decide sampleEnv defaultSettings sampleFeed
          (initialState\<lparr>allFilteredTweets := {''100''}\<rparr>) sampleRoot) = Some Previously_filtered \<and>
   fst (decide sampleEnv defaultSettings sampleFeed
          (initialState\<lparr>allFilteredTweets := {''100''}\<rparr>) sampleRecent) = None \<and>
   ''100'' \<in> allFilteredTweets
     (filterTweets sampleEnv defaultSettings sampleFeed
        (initialState\<lparr>allFilteredTweets := {''100''}\<rparr>))"
  using filteredIds_monotonic[of sampleRoot "''100''"
      "initialState\<lparr>allFilteredTweets := {''100''}\<rparr>"
      sampleEnv defaultSettings sampleFeed sampleRecent sampleFeed]
    sampleRoot_id sampleRecent_shown
  by auto

section \<open>Priority order of the criteria\<close>

lemma decide_priority:
  "fst (decide e s doc st t) = reasonOf (priorityDecision e s doc st t)"
  by (auto simp: decide_def priorityDecision_def reasonOf_def previouslyFiltered_def
      parentCascade_def ageCriterion_def followerCriterion_def timeCheck_def followerCheck_def
      Let_def split: option.splits)

lemma tooOld_cong:
  "now e' = now e \<Longrightarrow> dateParse e' = dateParse e \<Longrightarrow> maxAge s' = maxAge s \<Longrightarrow>
   tooOld e' s' ts = tooOld e s ts"
  by (simp add: tooOld_def parseTweetTime_def cutoffTime_def relativeDate_def
      cong: if_cong option.case_cong)

lemma timeCheck_cong:
  "now e' = now e \<Longrightarrow> dateParse e' = dateParse e \<Longrightarrow> maxAge s' = maxAge s \<Longrightarrow>
   timeCheck e' s' t i r c st = timeCheck e s t i r c st"
  by (simp add: timeCheck_def tooOld_cong[of e' e s' s] split: option.splits)

lemma followerCheck_skipped: "fst rs \<noteq> None \<Longrightarrow> followerCheck e s t i rs = rs"
  by (auto simp: followerCheck_def)

lemma timeCheck_fires:
  "ageCriterion e s t \<Longrightarrow> fst (timeCheck e s t i r c st) = Some Time"
  by (auto simp: ageCriterion_def timeCheck_def split: option.splits)

lemma decide_ignores_followers:
  assumes "previouslyFiltered st t \<or> parentCascade doc st t \<or> ageCriterion e s t"
  shows "decide (e\<lparr>profileHeader := ph, hoverCard := hc\<rparr>)
           (s\<lparr>followerFilterEnabled := b, minFollowers := m\<rparr>) doc st t = decide e s doc st t"
proof -
  let ?e = "e\<lparr>profileHeader := ph, hoverCard := hc\<rparr>"
  let ?s = "s\<lparr>followerFilterEnabled := b, minFollowers := m\<rparr>"
  have tc: "timeCheck ?e ?s t i r c st = timeCheck e s t i r c st" for i r c
    by (rule timeCheck_cong) simp_all
  consider (known) "previouslyFiltered st t"
    | (cascade) "\<not> previouslyFiltered st t" "parentCascade doc st t"
    | (old) "\<not> previouslyFiltered st t" "\<not> parentCascade doc st t" "ageCriterion e s t"
    using assms by blast
  then show ?thesis
  proof cases
    case known
    then show ?thesis by (simp add: decide_def previouslyFiltered_def)
  next
    case cascade
    then show ?thesis by (simp add: decide_def previouslyFiltered_def parentCascade_def)
  next
    case old
    let ?rs = "timeCheck e s t (getTweetId t) (isTweetReply t) (getTweetConversationId doc st t) st"
    have "fst ?rs \<noteq> None" using old(3) by (simp add: timeCheck_fires)
    then have "followerCheck ?e ?s t (getTweetId t) ?rs = ?rs"
      and "followerCheck e s t (getTweetId t) ?rs = ?rs"
      by (simp_all add: followerCheck_skipped)
    then show ?thesis
      using old(1,2) by (auto simp: decide_def previouslyFiltered_def parentCascade_def tc Let_def)
  qed
qed

text \<open>
  Claim C2. The reason that the loop body computes is the one of the priority list:
  known identity, then reply to a filtered parent, then age, then followers, else shown.
  When one of the first three rules fires, the decision and the memory do not depend on
  the follower data (profile summaries, hover card, follower settings): the follower
  evaluator is not consulted. A reply to a filtered parent that is not known yet is
  filtered as such whatever its own age.
\<close>

theorem priority_order:
  "fst (decide e s doc st t) = reasonOf (priorityDecision e s doc st t) \<and>
   (priorityDecision e s doc st t \<in>
        {Filtered Previously_filtered, Filtered Parent_filtered, Filtered Time} \<longrightarrow>
      decide (e\<lparr>profileHeader := ph, hoverCard := hc\<rparr>)
        (s\<lparr>followerFilterEnabled := b, minFollowers := m\<rparr>) doc st t = decide e s doc st t) \<and>
   (\<not> previouslyFiltered st t \<and> parentCascade doc st t \<longrightarrow>
      fst (decide e s doc st t) = Some Parent_filtered)"
proof (intro conjI impI)
  show "fst (decide e s doc st t) = reasonOf (priorityDecision e s doc st t)"
    by (rule decide_priority)
next
  assume "priorityDecision e s doc st t \<in>
        {Filtered Previously_filtered, Filtered Parent_filtered, Filtered Time}"
  then have "previouslyFiltered st t \<or> parentCascade doc st t \<or> ageCriterion e s t"
    by (auto simp: priorityDecision_def split: if_splits)
  then show "decide (e\<lparr>profileHeader := ph, hoverCard := hc\<rparr>)
        (s\<lparr>followerFilterEnabled := b, minFollowers := m\<rparr>) doc st t = decide e s doc st t"
    by (rule decide_ignores_followers)
next
  assume "\<not> previouslyFiltered st t \<and> parentCascade doc st t"
  then show "fst (decide e s doc st t) = Some Parent_filtered"
    by (simp add: decide_priority priorityDecision_def reasonOf_def)
qed

lemmas criteria_defs = previouslyFiltered_def parentCascade_def ageCriterion_def
  followerCriterion_def priorityDecision_def reasonOf_def

lemma sampleReply_cascade:
  "\<not> previouslyFiltered (initialState\<lparr>filteredParentIds := {''100''}\<rparr>) sampleReply \<and>
   parentCascade sampleFeed (initialState\<lparr>filteredParentIds := {''100''}\<rparr>) sampleReply"
  by (simp add: criteria_defs sample_defs engine_defs resolver_defs string_defs)

lemma sampleReply_not_old: "\<not> ageCriterion sampleEnv defaultSettings sampleReply"
  by (simp add: criteria_defs sample_defs evaluator_defs string_defs)

theorem priority_order_witness:
  "\<not> previouslyFiltered (initialState\<lparr>filteredParentIds := {''100''}\<rparr>) sampleReply \<and>
   parentCascade sampleFeed (initialState\<lparr>filteredParentIds := {''100''}\<rparr>) sampleReply \<and>
   priorityDecision sampleEnv defaultSettings sampleFeed
      (initialState\<lparr>filteredParentIds := {''100''}\<rparr>) sampleReply = Filtered Parent_filtered \<and>
   fst (decide sampleEnv defaultSettings sampleFeed
      (initialState\<lparr>filteredParentIds := {''100''}\<rparr>) sampleReply) = Some Parent_filtered \<and>
   decide (sampleEnv\<lparr>profileHeader := map_of [(''carol'', ''3 Followers'')], hoverCard := None\<rparr>)
      (defaultSettings\<lparr>followerFilterEnabled := True, minFollowers := 2000\<rparr>) sampleFeed
      (initialState\<lparr>filteredParentIds := {''100''}\<rparr>) sampleReply =
     decide sampleEnv defaultSettings sampleFeed
      (initialState\<lparr>filteredParentIds := {''100''}\<rparr>) sampleReply"
  using priority_order[where e = sampleEnv and s = defaultSettings and doc = sampleFeed
      and st = "initialState\<lparr>filteredParentIds := {''100''}\<rparr>" and t = sampleReply
      and ph = "map_of [(''carol'', ''3 Followers'')]" and hc = None and b = True and m = 2000]
    sampleReply_cascade
  by (simp add: priorityDecision_def reasonOf_def)

section \<open>The age boundary\<close>

lemma tooOld_iff:
  "parseTweetTime e timestamp = Some ts \<Longrightarrow>
   tooOld e s timestamp = (ts \<le> now e - maxAge s * 60000)"
  by (simp add: tooOld_def dateLe_def cutoffTime_def)

lemma classifyTweet_marks:
  "fst (decide e s doc st t) \<noteq> None \<Longrightarrow> node t \<in> filteredClass (classifyTweet e s doc t st)"
  by (simp add: classifyTweet_def applyDecision_def Let_def)

text \<open>
  Claim C5. For a timestamp that parses to a valid instant, the age test holds exactly
  when the instant is at most the clock minus \<open>maxAge\<close> minutes; a tweet that reaches the
  age check is filtered for age exactly then; and a tweet stamped exactly at the cutoff
  is filtered (it gets a reason and the filtered class), it is not shown.
\<close>

theorem inclusive_age_boundary:
  "(parseTweetTime e timestamp = Some ts \<longrightarrow>
      tooOld e s timestamp = (ts \<le> now e - maxAge s * 60000)) \<and>
   (timeEl t = Some timestamp \<and> parseTweetTime e timestamp = Some ts \<and>
    \<not> previouslyFiltered st t \<and> \<not> parentCascade doc st t \<longrightarrow>
      (fst (decide e s doc st t) = Some Time) = (ts \<le> now e - maxAge s * 60000)) \<and>
   (timeEl u = Some stamp \<and> parseTweetTime e stamp = Some (now e - maxAge s * 60000) \<longrightarrow>
      fst (decide e s doc st u) \<noteq> None \<and>
      node u \<in> filteredClass (classifyTweet e s doc u st))"
proof (intro conjI impI)
  assume "parseTweetTime e timestamp = Some ts"
  then show "tooOld e s timestamp = (ts \<le> now e - maxAge s * 60000)"
    by (rule tooOld_iff)
next
  assume a: "timeEl t = Some timestamp \<and> parseTweetTime e timestamp = Some ts \<and>
    \<not> previouslyFiltered st t \<and> \<not> parentCascade doc st t"
  then have "ageCriterion e s t = (ts \<le> now e - maxAge s * 60000)"
    by (simp add: ageCriterion_def tooOld_iff)
  with a show "(fst (decide e s doc st t) = Some Time) = (ts \<le> now e - maxAge s * 60000)"
    by (auto simp: decide_priority priorityDecision_def reasonOf_def)
next
  assume b: "timeEl u = Some stamp \<and> parseTweetTime e stamp = Some (now e - maxAge s * 60000)"
  then have "ageCriterion e s u"
    by (simp add: ageCriterion_def tooOld_iff)
  then show f: "fst (decide e s doc st u) \<noteq> None"
    by (simp add: decide_priority priorityDecision_def reasonOf_def)
  then show "node u \<in> filteredClass (classifyTweet e s doc u st)"
    by (rule classifyTweet_marks)
qed

lemma sampleBoundary_time:
  "timeEl sampleBoundary = Some \<lparr>datetime = Some ''2024-07-03T10:10:00.000Z'', timeText = ''2h''\<rparr> \<and>
   parseTweetTime sampleEnv \<lparr>datetime = Some ''2024-07-03T10:10:00.000Z'', timeText = ''2h''\<rparr>
     = Some (now sampleEnv - maxAge defaultSettings * 60000)"
  by (simp add: sample_defs evaluator_defs string_defs)

lemma sampleBoundary_fresh:
  "\<not> previouslyFiltered initialState sampleBoundary \<and>
   \<not> parentCascade sampleFeed initialState sampleBoundary"
  by (simp add: criteria_defs sample_defs engine_defs resolver_defs string_defs)

theorem inclusive_age_boundary_witness:
  "timeEl sampleBoundary = Some \<lparr>datetime = Some ''2024-07-03T10:10:00.000Z'', timeText = ''2h''\<rparr> \<and>
   parseTweetTime sampleEnv \<lparr>datetime = Some ''2024-07-03T10:10:00.000Z'', timeText = ''2h''\<rparr>
     = Some (now sampleEnv - maxAge defaultSettings * 60000) \<and>
   \<not> previouslyFiltered initialState sampleBoundary \<and>
   \<not> parentCascade sampleFeed initialState sampleBoundary \<and>
   tooOld sampleEnv defaultSettings \<lparr>datetime = Some ''2024-07-03T10:10:00.000Z'', timeText = ''2h''\<rparr> \<and>
   fst (decide sampleEnv defaultSettings sampleFeed initialState sampleBoundary) = Some Time \<and>
   node sampleBoundary \<in>
     filteredClass (classifyTweet sampleEnv defaultSettings sampleFeed sampleBoundary initialState)"
  using inclusive_age_boundary[where e = sampleEnv and s = defaultSettings and doc = sampleFeed
      and st = initialState and t = sampleBoundary and u = sampleBoundary
      and timestamp = "\<lparr>datetime = Some ''2024-07-03T10:10:00.000Z'', timeText = ''2h''\<rparr>"
      and stamp = "\<lparr>datetime = Some ''2024-07-03T10:10:00.000Z'', timeText = ''2h''\<rparr>"
      and ts = "now sampleEnv - maxAge defaultSettings * 60000"]
    sampleBoundary_time sampleBoundary_fresh
  by simp

section \<open>The counters of a full pass\<close>

lemma classifyTweet_counters:
  "(shown (statsCounter (classifyTweet e s doc t st)) = shown (statsCounter st) + 1 \<and>
    hidden (statsCounter (classifyTweet e s doc t st)) = hidden (statsCounter st) \<and>
    hiddenByFollowers (statsCounter (classifyTweet e s doc t st)) = hiddenByFollowers (statsCounter st)) \<or>
   (shown (statsCounter (classifyTweet e s doc t st)) = shown (statsCounter st) \<and>
    hidden (statsCounter (classifyTweet e s doc t st)) = hidden (statsCounter st) + 1 \<and>
    (hiddenByFollowers (statsCounter (classifyTweet e s doc t st)) = hiddenByFollowers (statsCounter st) \<or>
     hiddenByFollowers (statsCounter (classifyTweet e s doc t st)) = hiddenByFollowers (statsCounter st) + 1))"
  using decide_cases[of e s doc st t]
  by (auto simp: classifyTweet_def applyDecision_def Let_def)

lemma fold_classify_counters:
  "shown (statsCounter (fold (classifyTweet e s doc) ts st)) +
     hidden (statsCounter (fold (classifyTweet e s doc) ts st)) =
     shown (statsCounter st) + hidden (statsCounter st) + length ts \<and>
   hiddenByFollowers (statsCounter (fold (classifyTweet e s doc) ts st)) + hidden (statsCounter st) \<le>
     hidden (statsCounter (fold (classifyTweet e s doc) ts st)) + hiddenByFollowers (statsCounter st)"
proof (induction ts arbitrary: st)
  case Nil
  show ?case by simp
next
  case (Cons t ts)
  show ?case
    using Cons.IH[of "classifyTweet e s doc t st"] classifyTweet_counters[of e s doc t st]
    by auto
qed

lemma seedParent_counters: "statsCounter (seedParent e s doc t st) = statsCounter st"
  by (simp add: seedParent_def split: option.splits)

lemma fold_seed_counters: "statsCounter (fold (seedParent e s doc) ts st) = statsCounter st"
  by (induction ts arbitrary: st) (simp_all add: seedParent_counters)

text \<open>
  Claim C10. A full pass starts from counters reset to zero; each classified tweet adds
  one to exactly one of \<open>shown\<close> and \<open>hidden\<close>; \<open>hiddenByFollowers\<close> only ever grows by one
  together with \<open>hidden\<close>. So after a full pass \<open>hiddenByFollowers\<close> is at most \<open>hidden\<close>
  and \<open>shown + hidden\<close> is the number of tweets of the pass.
\<close>

theorem stats_consistency:
  "(isForYouFeed e \<longrightarrow>
      hiddenByFollowers (statsCounter (filterTweets e s doc st))
        \<le> hidden (statsCounter (filterTweets e s doc st)) \<and>
      shown (statsCounter (filterTweets e s doc st)) + hidden (statsCounter (filterTweets e s doc st))
        = length doc) \<and>
   statsCounter (resetCounters st) = \<lparr>hidden = 0, shown = 0, hiddenByFollowers = 0\<rparr> \<and>
   (hiddenByFollowers (statsCounter (classifyTweet e s doc t st)) \<noteq> hiddenByFollowers (statsCounter st) \<longrightarrow>
      hiddenByFollowers (statsCounter (classifyTweet e s doc t st)) = hiddenByFollowers (statsCounter st) + 1 \<and>
      hidden (statsCounter (classifyTweet e s doc t st)) = hidden (statsCounter st) + 1) \<and>
   ((shown (statsCounter (classifyTweet e s doc t st)) = shown (statsCounter st) + 1 \<and>
     hidden (statsCounter (classifyTweet e s doc t st)) = hidden (statsCounter st)) \<or>
    (shown (statsCounter (classifyTweet e s doc t st)) = shown (statsCounter st) \<and>
     hidden (statsCounter (classifyTweet e s doc t st)) = hidden (statsCounter st) + 1))"
proof (intro conjI impI)
  assume f: "isForYouFeed e"
  let ?st1 = "fold (seedParent e s doc) doc (resetCounters st)"
  have z: "statsCounter ?st1 = \<lparr>hidden = 0, shown = 0, hiddenByFollowers = 0\<rparr>"
    by (simp add: fold_seed_counters resetCounters_def)
  have r: "filterTweets e s doc st = fold (classifyTweet e s doc) doc ?st1"
    using f by (simp add: filterTweets_def)
  show "hiddenByFollowers (statsCounter (filterTweets e s doc st))
        \<le> hidden (statsCounter (filterTweets e s doc st))"
    using fold_classify_counters[of e s doc doc ?st1] by (simp add: r z)
  show "shown (statsCounter (filterTweets e s doc st)) + hidden (statsCounter (filterTweets e s doc st))
        = length doc"
    using fold_classify_counters[of e s doc doc ?st1] by (simp add: r z)
next
  show "statsCounter (resetCounters st) = \<lparr>hidden = 0, shown = 0, hiddenByFollowers = 0\<rparr>"
    by (simp add: resetCounters_def)
next
  assume "hiddenByFollowers (statsCounter (classifyTweet e s doc t st)) \<noteq> hiddenByFollowers (statsCounter st)"
  then show "hiddenByFollowers (statsCounter (classifyTweet e s doc t st)) = hiddenByFollowers (statsCounter st) + 1"
    and "hidden (statsCounter (classifyTweet e s doc t st)) = hidden (statsCounter st) + 1"
    using classifyTweet_counters[of e s doc t st] by auto
next
  show "(shown (statsCounter (classifyTweet e s doc t st)) = shown (statsCounter st) + 1 \<and>
     hidden (statsCounter (classifyTweet e s doc t st)) = hidden (statsCounter st)) \<or>
    (shown (statsCounter (classifyTweet e s doc t st)) = shown (statsCounter st) \<and>
     hidden (statsCounter (classifyTweet e s doc t st)) = hidden (statsCounter st) + 1)"
    using classifyTweet_counters[of e s doc t st] by auto
qed


lemma sampleRecent_followers:
  "statsCounter (classifyTweet sampleEnv (defaultSettings\<lparr>followerFilterEnabled := True\<rparr>)
      sampleFeed sampleRecent initialState) = \<lparr>hidden = 1, shown = 0, hiddenByFollowers = 1\<rparr>"
  by (simp add: sample_defs engine_defs evaluator_defs resolver_defs string_defs)

theorem stats_consistency_witness:
  "isForYouFeed sampleEnv \<and>
   hiddenByFollowers (statsCounter (classifyTweet sampleEnv
      (defaultSettings\<lparr>followerFilterEnabled := True\<rparr>) sampleFeed sampleRecent initialState))
     \<noteq> hiddenByFollowers (statsCounter initialState) \<and>
   hidden (statsCounter (classifyTweet sampleEnv
      (defaultSettings\<lparr>followerFilterEnabled := True\<rparr>) sampleFeed sampleRecent initialState))
     = hidden (statsCounter initialState) + 1 \<and>
   hiddenByFollowers (statsCounter (filterTweets sampleEnv
      (defaultSettings\<lparr>followerFilterEnabled := True\<rparr>) sampleFeed initialState))
     \<le> hidden (statsCounter (filterTweets sampleEnv
      (defaultSettings\<lparr>followerFilterEnabled := True\<rparr>) sampleFeed initialState)) \<and>
   shown (statsCounter (filterTweets sampleEnv
      (defaultSettings\<lparr>followerFilterEnabled := True\<rparr>) sampleFeed initialState)) +
   hidden (statsCounter (filterTweets sampleEnv
      (defaultSettings\<lparr>followerFilterEnabled := True\<rparr>) sampleFeed initialState)) = 3"
proof -
  have h: "hiddenByFollowers (statsCounter (classifyTweet sampleEnv
      (defaultSettings\<lparr>followerFilterEnabled := True\<rparr>) sampleFeed sampleRecent initialState))
     \<noteq> hiddenByFollowers (statsCounter initialState)"
    by (simp add: sampleRecent_followers) (simp add: initialState_def)
  have l: "length sampleFeed = 3" by (simp add: sampleFeed_def)
  show ?thesis
    using stats_consistency[where e = sampleEnv
        and s = "defaultSettings\<lparr>followerFilterEnabled := True\<rparr>" and doc = sampleFeed
        and st = initialState and t = sampleRecent] sampleEnv_onFeed h l
    by simp
qed

section \<open>The cascade from an old root to its replies\<close>

lemma filteredFromUser_nonempty: "filteredFromUser u fts = Some c \<Longrightarrow> c \<noteq> []"
  by (induction fts) (auto simp: truthy_def split: option.splits if_splits)

lemma conversationLink_nonempty: "conversationLink ls = Some c \<Longrightarrow> c \<noteq> []"
  by (induction ls) (auto simp: statusMatch_nonempty split: option.splits if_splits)

lemma threadLink_nonempty: "threadLink hs = Some c \<Longrightarrow> c \<noteq> []"
  by (induction hs) (auto simp: statusMatch_nonempty split: option.splits if_splits)

lemma getTweetConversationId_nonempty:
  "getTweetConversationId doc st t = Some c \<Longrightarrow> c \<noteq> []"
  by (auto simp: getTweetConversationId_def Let_def truthy_def js_or_def
      conversationLink_nonempty threadLink_nonempty filteredFromUser_nonempty
      split: if_splits option.splits)

lemma getTweetConversationId_class:
  "filteredClass st' = filteredClass st \<Longrightarrow>
   getTweetConversationId doc st' t = getTweetConversationId doc st t"
  unfolding getTweetConversationId_def by (erule subst) (rule refl)

lemma seedParent_class: "filteredClass (seedParent e s doc t st) = filteredClass st"
  by (simp add: seedParent_def split: option.splits)

lemma fold_seed_class: "filteredClass (fold (seedParent e s doc) ts st) = filteredClass st"
  by (induction ts arbitrary: st) (simp_all add: seedParent_class)

lemma seedParent_parents_mono:
  "filteredParentIds st \<subseteq> filteredParentIds (seedParent e s doc t st)"
  by (auto simp: seedParent_def addId_def split: option.splits)

lemma fold_seed_parents_mono:
  "filteredParentIds st \<subseteq> filteredParentIds (fold (seedParent e s doc) ts st)"
proof (induction ts arbitrary: st)
  case Nil
  show ?case by simp
next
  case (Cons t ts)
  have "filteredParentIds st \<subseteq> filteredParentIds (seedParent e s doc t st)"
    by (rule seedParent_parents_mono)
  also have "\<dots> \<subseteq> filteredParentIds (fold (seedParent e s doc) ts (seedParent e s doc t st))"
    by (rule Cons.IH)
  finally show ?case by simp
qed

lemma classifyTweet_parents_mono:
  "filteredParentIds st \<subseteq> filteredParentIds (classifyTweet e s doc t st)"
  using decide_cases[of e s doc st t]
  by (auto simp: classifyTweet_def applyDecision_def Let_def)

lemma fold_classify_parents_mono:
  "filteredParentIds st \<subseteq> filteredParentIds (fold (classifyTweet e s doc) ts st)"
proof (induction ts arbitrary: st)
  case Nil
  show ?case by simp
next
  case (Cons t ts)
  have "filteredParentIds st \<subseteq> filteredParentIds (classifyTweet e s doc t st)"
    by (rule classifyTweet_parents_mono)
  also have "\<dots> \<subseteq> filteredParentIds (fold (classifyTweet e s doc) ts (classifyTweet e s doc t st))"
    by (rule Cons.IH)
  finally show ?case by simp
qed

text \<open>What the first loop records for a root tweet that is too old.\<close>

lemma seedParent_records:
  assumes "\<not> isTweetReply r" "timeEl r = Some stamp" "tooOld e s stamp"
    and "getTweetId r = Some rid" "getTweetConversationId doc st r = Some cid"
  shows "cid \<in> filteredParentIds (seedParent e s doc r st) \<and>
         rid \<in> filteredParentIds (seedParent e s doc r st) \<and>
         rid \<in> allFilteredTweets (seedParent e s doc r st)"
  using assms getTweetId_nonempty[of r rid] getTweetConversationId_nonempty[of doc st r cid]
  by (simp add: seedParent_def addId_def)

lemma fold_seed_records:
  assumes "r \<in> set ts" "\<not> isTweetReply r" "timeEl r = Some stamp" "tooOld e s stamp"
    and "getTweetId r = Some rid" "getTweetConversationId doc st r = Some cid"
  shows "cid \<in> filteredParentIds (fold (seedParent e s doc) ts st) \<and>
         rid \<in> filteredParentIds (fold (seedParent e s doc) ts st) \<and>
         rid \<in> allFilteredTweets (fold (seedParent e s doc) ts st)"
  using assms(1,6)
proof (induction ts arbitrary: st)
  case Nil
  then show ?case by simp
next
  case (Cons t ts)
  let ?st = "seedParent e s doc t st"
  have cls: "getTweetConversationId doc ?st r = Some cid"
    using Cons.prems(2) getTweetConversationId_class[of ?st st doc r]
    by (simp add: seedParent_class)
  show ?case
  proof (cases "r = t")
    case True
    have rec: "cid \<in> filteredParentIds ?st \<and> rid \<in> filteredParentIds ?st \<and> rid \<in> allFilteredTweets ?st"
      using seedParent_records[OF assms(2,3,4,5) Cons.prems(2)] True by simp
    moreover have "filteredParentIds ?st \<subseteq> filteredParentIds (fold (seedParent e s doc) ts ?st)"
      by (rule fold_seed_parents_mono)
    moreover have "allFilteredTweets ?st \<subseteq> allFilteredTweets (fold (seedParent e s doc) ts ?st)"
      by (rule fold_seed_allFiltered_mono)
    ultimately show ?thesis by auto
  next
    case False
    then have "r \<in> set ts" using Cons.prems(1) by simp
    then show ?thesis using Cons.IH[of ?st] cls by simp
  qed
qed

lemma decisions_nth:
  "k < length ts \<Longrightarrow>
   decisions e s doc ts st ! k =
     fst (decide e s doc (fold (classifyTweet e s doc) (take k ts) st) (ts ! k))"
proof (induction ts arbitrary: st k)
  case Nil
  then show ?case by simp
next
  case (Cons t ts)
  show ?case
  proof (cases k)
    case 0
    then show ?thesis by simp
  next
    case (Suc j)
    then show ?thesis using Cons.IH[of j "classifyTweet e s doc t st"] Cons.prems by simp
  qed
qed

text \<open>
  Claim C3. In a full pass, let a root tweet (not a reply) anywhere in the document have
  identity \<open>rid\<close>, conversation id \<open>cid\<close> and a timestamp at or before the cutoff. Then
  every tweet of the pass that is a reply, resolves to conversation id \<open>cid\<close> and whose
  identity is not in \<open>allFilteredTweets\<close> when the main loop reaches it gets the reason
  \<open>parent_filtered\<close> and the filtered class, whatever its own timestamp and wherever it
  stands relative to the root: the first loop has recorded \<open>cid\<close> (and \<open>rid\<close>) before the
  main loop starts.
\<close>

theorem cascade_correctness:
  assumes "r \<in> set doc" and "\<not> isTweetReply r"
    and "getTweetId r = Some rid" and "getTweetConversationId doc st r = Some cid"
    and "timeEl r = Some stamp" and "tooOld e s stamp"
    and "k < length doc" and "isTweetReply (doc ! k)"
    and "getTweetConversationId doc (stateBefore e s doc st k) (doc ! k) = Some cid"
    and "\<not> hasId (allFilteredTweets (stateBefore e s doc st k)) (getTweetId (doc ! k))"
  shows "fullPassDecisions e s doc st ! k = Some Parent_filtered \<and>
         node (doc ! k) \<in> filteredClass (stateBefore e s doc st (Suc k)) \<and>
         cid \<in> filteredParentIds (stateBefore e s doc st 0) \<and>
         rid \<in> allFilteredTweets (stateBefore e s doc st 0) \<and>
         (isForYouFeed e \<longrightarrow> filterTweets e s doc st = stateBefore e s doc st (length doc))"
proof -
  let ?st0 = "resetCounters st"
  let ?st1 = "fold (seedParent e s doc) doc ?st0"
  let ?stk = "stateBefore e s doc st k"
  have "getTweetConversationId doc ?st0 r = Some cid"
    using assms(4) getTweetConversationId_class[of ?st0 st doc r] by (simp add: resetCounters_def)
  then have seeded: "cid \<in> filteredParentIds ?st1 \<and> rid \<in> filteredParentIds ?st1 \<and>
      rid \<in> allFilteredTweets ?st1"
    using fold_seed_records[OF assms(1,2,5,6,3)] by simp
  have "filteredParentIds ?st1 \<subseteq> filteredParentIds ?stk"
    unfolding stateBefore_def by (rule fold_classify_parents_mono)
  then have "cid \<in> filteredParentIds ?stk" using seeded by auto
  moreover have "cid \<noteq> []"
    using assms(4) by (rule getTweetConversationId_nonempty)
  ultimately have "parentCascade doc ?stk (doc ! k)"
    using assms(8,9) by (simp add: parentCascade_def hasId_def)
  then have d: "fst (decide e s doc ?stk (doc ! k)) = Some Parent_filtered"
    using assms(10) by (simp add: decide_priority priorityDecision_def reasonOf_def previouslyFiltered_def)
  have "fullPassDecisions e s doc st ! k = fst (decide e s doc ?stk (doc ! k))"
    unfolding fullPassDecisions_def stateBefore_def using assms(7) by (rule decisions_nth)
  then have 1: "fullPassDecisions e s doc st ! k = Some Parent_filtered" using d by simp
  have "stateBefore e s doc st (Suc k) = classifyTweet e s doc (doc ! k) ?stk"
    using assms(7) by (simp add: stateBefore_def take_Suc_conv_app_nth)
  then have 2: "node (doc ! k) \<in> filteredClass (stateBefore e s doc st (Suc k))"
    using d by (simp add: classifyTweet_marks)
  have 3: "cid \<in> filteredParentIds (stateBefore e s doc st 0)"
    and 4: "rid \<in> allFilteredTweets (stateBefore e s doc st 0)"
    using seeded by (simp_all add: stateBefore_def)
  have 5: "isForYouFeed e \<longrightarrow> filterTweets e s doc st = stateBefore e s doc st (length doc)"
    by (simp add: filterTweets_def stateBefore_def)
  from 1 2 3 4 5 show ?thesis by blast
qed


lemma sampleRoot_facts:
  "sampleRoot \<in> set sampleFeed \<and> \<not> isTweetReply sampleRoot \<and>
   getTweetConversationId sampleFeed initialState sampleRoot = Some ''100'' \<and>
   timeEl sampleRoot = Some \<lparr>datetime = Some ''2024-07-03T10:00:00.000Z'', timeText = ''Jul 3''\<rparr> \<and>
   tooOld sampleEnv defaultSettings \<lparr>datetime = Some ''2024-07-03T10:00:00.000Z'', timeText = ''Jul 3''\<rparr>"
  by (simp add: sample_defs evaluator_defs resolver_defs string_defs)

lemma sampleFeed_seeded:
  "stateBefore sampleEnv defaultSettings sampleFeed initialState 0 =
     initialState\<lparr>filteredParentIds := {''100''}, allFilteredTweets := {''100''}\<rparr>"
  by (simp add: stateBefore_def sample_defs engine_defs evaluator_defs resolver_defs string_defs)

lemma sampleReply_facts:
  "isTweetReply (sampleFeed ! 0) \<and>
   getTweetConversationId sampleFeed
      (initialState\<lparr>filteredParentIds := {''100''}, allFilteredTweets := {''100''}\<rparr>)
      (sampleFeed ! 0) = Some ''100'' \<and>
   \<not> hasId (allFilteredTweets
      (initialState\<lparr>filteredParentIds := {''100''}, allFilteredTweets := {''100''}\<rparr>))
      (getTweetId (sampleFeed ! 0))"
  by (simp add: sample_defs engine_defs resolver_defs string_defs)

theorem cascade_correctness_witness:
  "sampleRoot \<in> set sampleFeed \<and> \<not> isTweetReply sampleRoot \<and>
   getTweetId sampleRoot = Some ''100'' \<and>
   getTweetConversationId sampleFeed initialState sampleRoot = Some ''100'' \<and>
   tooOld sampleEnv defaultSettings \<lparr>datetime = Some ''2024-07-03T10:00:00.000Z'', timeText = ''Jul 3''\<rparr> \<and>
   isTweetReply (sampleFeed ! 0) \<and>
   getTweetConversationId sampleFeed (stateBefore sampleEnv defaultSettings sampleFeed initialState 0)
      (sampleFeed ! 0) = Some ''100'' \<and>
   fullPassDecisions sampleEnv defaultSettings sampleFeed initialState ! 0 = Some Parent_filtered \<and>
   filterTweets sampleEnv defaultSettings sampleFeed initialState =
     stateBefore sampleEnv defaultSettings sampleFeed initialState (length sampleFeed)"
proof -
  have k: "0 < length sampleFeed" by (simp add: sampleFeed_def)
  show ?thesis
    using cascade_correctness[where r = sampleRoot and doc = sampleFeed and st = initialState
        and e = sampleEnv and s = defaultSettings and k = 0 and rid = "''100''" and cid = "''100''"
        and stamp = "\<lparr>datetime = Some ''2024-07-03T10:00:00.000Z'', timeText = ''Jul 3''\<rparr>"]
      sampleRoot_facts sampleRoot_id sampleReply_facts sampleEnv_onFeed k
    by (simp add: sampleFeed_seeded)
qed

section \<open>Two full passes in succession\<close>

lemma addId_absorb:
  "(addId i S = S) = (case i of None \<Rightarrow> True | Some x \<Rightarrow> x = [] \<or> x \<in> S)"
  by (auto simp: addId_def split: option.splits)

lemma addId_absorb_mono: "addId i S = S \<Longrightarrow> S \<subseteq> S' \<Longrightarrow> addId i S' = S'"
  by (auto simp: addId_absorb split: option.splits)

lemma addId_twice_absorb:
  "(addId c (addId i S) = S) = (addId i S = S \<and> addId c S = S)"
  by (auto simp: addId_def split: option.splits)

lemma hasId_addId_other:
  "i \<noteq> j \<Longrightarrow> hasId (addId i S) j = hasId S j"
  by (auto simp: hasId_def addId_def split: option.splits)

lemma conv_static:
  "replyingToSpan t = None \<Longrightarrow>
   getTweetConversationId doc st' t = getTweetConversationId doc st t"
  by (simp add: getTweetConversationId_def Let_def split: option.splits)

lemma no_span_no_author: "replyingToSpan t = None \<Longrightarrow> \<not> isReplyingToFilteredUser doc st t"
  by (simp add: isReplyingToFilteredUser_def)

lemma parentCascade_static:
  "replyingToSpan t = None \<Longrightarrow> filteredParentIds st' = filteredParentIds st \<Longrightarrow>
   parentCascade doc st' t = parentCascade doc st t"
  using conv_static[of t doc st' st]
  by (simp add: parentCascade_def no_span_no_author)

lemma decide_fst_cong:
  assumes "replyingToSpan t = None" "filteredParentIds st' = filteredParentIds st"
    and "hasId (allFilteredTweets st') (getTweetId t) = hasId (allFilteredTweets st) (getTweetId t)"
  shows "fst (decide e s doc st' t) = fst (decide e s doc st t)"
  using assms parentCascade_static[OF assms(1,2), of doc]
  by (simp add: decide_priority priorityDecision_def previouslyFiltered_def)

text \<open>The memory after one step, when an old root is already recorded as a parent.\<close>

lemma classifyTweet_memory:
  assumes "\<not> isTweetReply t \<and> ageCriterion e s t \<longrightarrow>
      addId (getTweetConversationId doc st t) (addId (getTweetId t) (filteredParentIds st))
        = filteredParentIds st"
  shows "filteredParentIds (classifyTweet e s doc t st) = filteredParentIds st \<and>
         allFilteredTweets (classifyTweet e s doc t st) =
           (if fst (decide e s doc st t) = None then allFilteredTweets st
            else addId (getTweetId t) (allFilteredTweets st))"
proof -
  have shownF: "\<not> hasId F i \<Longrightarrow> deleteId i F = F" for F i
    by (rule deleteId_noop)
  have knownF: "hasId F i \<Longrightarrow> addId i F = F" for F i
    by (auto simp: hasId_def addId_def split: option.splits)
  show ?thesis
    using assms
    by (auto simp: classifyTweet_def applyDecision_def decide_def timeCheck_def followerCheck_def
        ageCriterion_def Let_def shownF knownF split: option.splits)
qed


lemma distinct_ids:
  "distinct (List.map_filter f xs) \<Longrightarrow> u \<in> set xs \<Longrightarrow> t \<in> set xs \<Longrightarrow>
   f u = Some i \<Longrightarrow> f t = Some i \<Longrightarrow> u = t"
proof (induction xs)
  case Nil
  then show ?case by simp
next
  case (Cons x xs)
  have in_tail: "\<And>v. v \<in> set xs \<Longrightarrow> f v = Some i \<Longrightarrow> i \<in> set (List.map_filter f xs)"
    by (force simp: List.map_filter_def)
  show ?case
  proof (cases "f x")
    case None
    then show ?thesis using Cons by (auto simp: List.map_filter_simps)
  next
    case (Some j)
    then have d: "j \<notin> set (List.map_filter f xs)" "distinct (List.map_filter f xs)"
      using Cons.prems(1) by (simp_all add: List.map_filter_simps)
    show ?thesis
      using Cons.IH[OF d(2)] Cons.prems(2-5) Some d(1) in_tail by auto
  qed
qed

text \<open>
  Without "Replying to" lines, with identities that differ from tweet to tweet and with
  the old roots already recorded, the main loop decides every tweet as its starting state
  would, keeps the filtered parents and remembers the identities it filtered.
\<close>

lemma main_loop_trace:
  assumes "\<forall>t \<in> set ts. replyingToSpan t = None"
    and "distinct (List.map_filter getTweetId ts)"
    and "\<forall>t \<in> set ts. \<not> isTweetReply t \<and> ageCriterion e s t \<longrightarrow>
      addId (getTweetConversationId doc st t) (addId (getTweetId t) (filteredParentIds st))
        = filteredParentIds st"
  shows "decisions e s doc ts st = map (\<lambda>t. fst (decide e s doc st t)) ts \<and>
         filteredParentIds (fold (classifyTweet e s doc) ts st) = filteredParentIds st \<and>
         allFilteredTweets (fold (classifyTweet e s doc) ts st) =
           allFilteredTweets st \<union>
           {i. \<exists>t \<in> set ts. getTweetId t = Some i \<and> fst (decide e s doc st t) \<noteq> None}"
  using assms
proof (induction ts arbitrary: st)
  case Nil
  show ?case by simp
next
  case (Cons t ts)
  let ?st = "classifyTweet e s doc t st"
  have nt: "replyingToSpan t = None" and nts: "\<forall>u \<in> set ts. replyingToSpan u = None"
    using Cons.prems(1) by simp_all
  have mem: "filteredParentIds ?st = filteredParentIds st"
    "allFilteredTweets ?st =
       (if fst (decide e s doc st t) = None then allFilteredTweets st
        else addId (getTweetId t) (allFilteredTweets st))"
    using classifyTweet_memory[of t e s doc st] Cons.prems(3) by simp_all
  have dts: "distinct (List.map_filter getTweetId ts)"
    using Cons.prems(2) by (cases "getTweetId t") (simp_all add: List.map_filter_simps)
  have other: "getTweetId u \<noteq> getTweetId t \<or> getTweetId t = None" if "u \<in> set ts" for u
  proof (cases "getTweetId t")
    case None
    then show ?thesis by simp
  next
    case (Some i)
    then have "i \<notin> set (List.map_filter getTweetId ts)"
      using Cons.prems(2) by (simp add: List.map_filter_simps)
    then have "getTweetId u \<noteq> Some i"
      using that by (force simp: List.map_filter_def)
    then show ?thesis using Some by simp
  qed
  have known: "hasId (allFilteredTweets ?st) (getTweetId u) = hasId (allFilteredTweets st) (getTweetId u)"
    if "u \<in> set ts" for u
    using other[OF that] mem(2)
    by (auto simp: hasId_def addId_def split: option.splits)
  have same: "fst (decide e s doc ?st u) = fst (decide e s doc st u)" if "u \<in> set ts" for u
    using decide_fst_cong[of u ?st st e s doc] nts that mem(1) known[OF that] by simp
  have stable: "\<forall>u \<in> set ts. \<not> isTweetReply u \<and> ageCriterion e s u \<longrightarrow>
      addId (getTweetConversationId doc ?st u) (addId (getTweetId u) (filteredParentIds ?st))
        = filteredParentIds ?st"
  proof
    fix u assume u: "u \<in> set ts"
    have "getTweetConversationId doc ?st u = getTweetConversationId doc st u"
      using nts u by (simp add: conv_static)
    then show "\<not> isTweetReply u \<and> ageCriterion e s u \<longrightarrow>
      addId (getTweetConversationId doc ?st u) (addId (getTweetId u) (filteredParentIds ?st))
        = filteredParentIds ?st"
      using Cons.prems(3) u mem(1) by simp
  qed
  have ih: "decisions e s doc ts ?st = map (\<lambda>t. fst (decide e s doc ?st t)) ts \<and>
         filteredParentIds (fold (classifyTweet e s doc) ts ?st) = filteredParentIds ?st \<and>
         allFilteredTweets (fold (classifyTweet e s doc) ts ?st) =
           allFilteredTweets ?st \<union>
           {i. \<exists>t \<in> set ts. getTweetId t = Some i \<and> fst (decide e s doc ?st t) \<noteq> None}"
    by (rule Cons.IH[OF nts dts stable])
  have m: "map (\<lambda>t. fst (decide e s doc ?st t)) ts = map (\<lambda>t. fst (decide e s doc st t)) ts"
    using same by simp
  have 1: "decisions e s doc (t # ts) st = map (\<lambda>t. fst (decide e s doc st t)) (t # ts)"
    using ih m by simp
  have 2: "filteredParentIds (fold (classifyTweet e s doc) (t # ts) st) = filteredParentIds st"
    using ih mem(1) by simp
  have tail: "{i. \<exists>u \<in> set ts. getTweetId u = Some i \<and> fst (decide e s doc ?st u) \<noteq> None} =
      {i. \<exists>u \<in> set ts. getTweetId u = Some i \<and> fst (decide e s doc st u) \<noteq> None}"
    using same by auto
  have head: "allFilteredTweets ?st =
      allFilteredTweets st \<union> {i. getTweetId t = Some i \<and> fst (decide e s doc st t) \<noteq> None}"
    using mem(2) getTweetId_nonempty[of t]
    by (auto simp: addId_def split: option.splits)
  have 3: "allFilteredTweets (fold (classifyTweet e s doc) (t # ts) st) =
           allFilteredTweets st \<union>
           {i. \<exists>u \<in> set (t # ts). getTweetId u = Some i \<and> fst (decide e s doc st u) \<noteq> None}"
    using ih tail head by auto
  from 1 2 3 show ?case by blast
qed


text \<open>The counters after the main loop, read off the trace of reasons.\<close>

lemma fold_classify_counts:
  "hidden (statsCounter (fold (classifyTweet e s doc) ts st)) =
     hidden (statsCounter st) + length (filter (\<lambda>r. r \<noteq> None) (decisions e s doc ts st)) \<and>
   shown (statsCounter (fold (classifyTweet e s doc) ts st)) =
     shown (statsCounter st) + length (filter (\<lambda>r. r = None) (decisions e s doc ts st)) \<and>
   hiddenByFollowers (statsCounter (fold (classifyTweet e s doc) ts st)) =
     hiddenByFollowers (statsCounter st) +
       length (filter (\<lambda>r. r = Some Followers) (decisions e s doc ts st))"
proof (induction ts arbitrary: st)
  case Nil
  show ?case by simp
next
  case (Cons t ts)
  have step: "statsCounter (classifyTweet e s doc t st) =
      (if fst (decide e s doc st t) \<noteq> None
       then (statsCounter st)\<lparr>hiddenByFollowers :=
               (if fst (decide e s doc st t) = Some Followers
                then hiddenByFollowers (statsCounter st) + 1
                else hiddenByFollowers (statsCounter st)),
             hidden := hidden (statsCounter st) + 1\<rparr>
       else (statsCounter st)\<lparr>shown := shown (statsCounter st) + 1\<rparr>)"
    using decide_cases[of e s doc st t]
    by (auto simp: classifyTweet_def applyDecision_def Let_def)
  show ?case
    using Cons.IH[of "classifyTweet e s doc t st"] by (auto simp: step)
qed

lemma seedParent_effect:
  "seedParent e s doc r st =
     (if \<not> isTweetReply r \<and> ageCriterion e s r
      then st\<lparr>filteredParentIds :=
                addId (getTweetConversationId doc st r) (addId (getTweetId r) (filteredParentIds st)),
              allFilteredTweets := addId (getTweetId r) (allFilteredTweets st)\<rparr>
      else st)"
  by (auto simp: seedParent_def ageCriterion_def split: option.splits)

lemma fold_seed_stable:
  assumes "r \<in> set ts" "\<not> isTweetReply r" "ageCriterion e s r"
  shows "addId (getTweetConversationId doc st r)
           (addId (getTweetId r) (filteredParentIds (fold (seedParent e s doc) ts st)))
           = filteredParentIds (fold (seedParent e s doc) ts st) \<and>
         addId (getTweetId r) (allFilteredTweets (fold (seedParent e s doc) ts st))
           = allFilteredTweets (fold (seedParent e s doc) ts st)"
  using assms(1)
proof (induction ts arbitrary: st)
  case Nil
  then show ?case by simp
next
  case (Cons t ts)
  let ?st = "seedParent e s doc t st"
  have cls: "getTweetConversationId doc ?st r = getTweetConversationId doc st r"
    by (rule getTweetConversationId_class) (rule seedParent_class)
  show ?case
  proof (cases "r = t")
    case True
    have here: "addId (getTweetId r) (filteredParentIds ?st) = filteredParentIds ?st"
      "addId (getTweetConversationId doc st r) (filteredParentIds ?st) = filteredParentIds ?st"
      "addId (getTweetId r) (allFilteredTweets ?st) = allFilteredTweets ?st"
      using True assms(2,3)
      by (auto simp: seedParent_effect addId_def split: option.splits)
    have p: "filteredParentIds ?st \<subseteq> filteredParentIds (fold (seedParent e s doc) ts ?st)"
      by (rule fold_seed_parents_mono)
    have f: "allFilteredTweets ?st \<subseteq> allFilteredTweets (fold (seedParent e s doc) ts ?st)"
      by (rule fold_seed_allFiltered_mono)
    show ?thesis
      using addId_absorb_mono[OF here(1) p] addId_absorb_mono[OF here(2) p]
        addId_absorb_mono[OF here(3) f]
      by (simp add: addId_twice_absorb)
  next
    case False
    then have "r \<in> set ts" using Cons.prems by simp
    then show ?thesis using Cons.IH[of ?st] cls by simp
  qed
qed

lemma fold_seed_noop:
  assumes "\<forall>r \<in> set ts. \<not> isTweetReply r \<and> ageCriterion e s r \<longrightarrow>
      addId (getTweetConversationId doc st r) (addId (getTweetId r) (filteredParentIds st))
        = filteredParentIds st \<and>
      addId (getTweetId r) (allFilteredTweets st) = allFilteredTweets st"
  shows "fold (seedParent e s doc) ts st = st"
  using assms
proof (induction ts)
  case Nil
  show ?case by simp
next
  case (Cons t ts)
  have "seedParent e s doc t st = st"
    using Cons.prems by (simp add: seedParent_effect)
  then show ?case using Cons by simp
qed

lemma filter_count_le:
  "(\<And>x. x \<in> set xs \<Longrightarrow> P (f x) \<Longrightarrow> Q (g x)) \<Longrightarrow>
   length (filter P (map f xs)) \<le> length (filter Q (map g xs))"
  by (induction xs) auto

lemma filter_count_eq:
  "(\<And>x. x \<in> set xs \<Longrightarrow> P (f x) = Q (g x)) \<Longrightarrow>
   length (filter P (map f xs)) = length (filter Q (map g xs))"
  by (induction xs) auto


text \<open>
  Claim C4, as amended. Two full passes in succession over the same tweets, with the
  configuration and the clock unchanged, filter the same tweets and report the same
  \<open>shown\<close> and \<open>hidden\<close> counts, provided that no tweet carries a "Replying to" line and
  that no two tweets resolve to the same identity. The reasons may change to
  \<open>previously_filtered\<close>, so \<open>hiddenByFollowers\<close> of the second pass is at most that of
  the first.
\<close>

theorem idempotence_amended:
  assumes "isForYouFeed e"
    and "\<forall>t \<in> set doc. replyingToSpan t = None"
    and "distinct (List.map_filter getTweetId doc)"
  shows "map (\<lambda>r. r \<noteq> None) (fullPassDecisions e s doc (filterTweets e s doc st)) =
           map (\<lambda>r. r \<noteq> None) (fullPassDecisions e s doc st) \<and>
         shown (statsCounter (filterTweets e s doc (filterTweets e s doc st))) =
           shown (statsCounter (filterTweets e s doc st)) \<and>
         hidden (statsCounter (filterTweets e s doc (filterTweets e s doc st))) =
           hidden (statsCounter (filterTweets e s doc st)) \<and>
         hiddenByFollowers (statsCounter (filterTweets e s doc (filterTweets e s doc st))) \<le>
           hiddenByFollowers (statsCounter (filterTweets e s doc st))"
proof -
  let ?st1 = "fold (seedParent e s doc) doc (resetCounters st)"
  let ?st2 = "fold (classifyTweet e s doc) doc ?st1"
  let ?r2 = "resetCounters ?st2"
  let ?st3 = "fold (classifyTweet e s doc) doc ?r2"
  let ?d1 = "\<lambda>t. fst (decide e s doc ?st1 t)"
  let ?d2 = "\<lambda>t. fst (decide e s doc ?r2 t)"
  have ft1: "filterTweets e s doc st = ?st2"
    using assms(1) by (simp add: filterTweets_def)
  have conv: "getTweetConversationId doc a t = getTweetConversationId doc b t"
    if "t \<in> set doc" for t a b
    using assms(2) that by (simp add: conv_static)
  have rec1: "addId (getTweetConversationId doc ?st1 r) (addId (getTweetId r) (filteredParentIds ?st1))
        = filteredParentIds ?st1 \<and>
      addId (getTweetId r) (allFilteredTweets ?st1) = allFilteredTweets ?st1"
    if "r \<in> set doc" "\<not> isTweetReply r" "ageCriterion e s r" for r
    using fold_seed_stable[OF that, of doc "resetCounters st"] conv[OF that(1), of ?st1 "resetCounters st"]
    by simp
  have tr1: "decisions e s doc doc ?st1 = map ?d1 doc \<and>
      filteredParentIds ?st2 = filteredParentIds ?st1 \<and>
      allFilteredTweets ?st2 = allFilteredTweets ?st1 \<union>
        {i. \<exists>t \<in> set doc. getTweetId t = Some i \<and> ?d1 t \<noteq> None}"
    using main_loop_trace[OF assms(2,3), of e s doc ?st1] rec1 by blast
  have par2: "filteredParentIds ?r2 = filteredParentIds ?st1"
    and all2: "allFilteredTweets ?r2 = allFilteredTweets ?st1 \<union>
        {i. \<exists>t \<in> set doc. getTweetId t = Some i \<and> ?d1 t \<noteq> None}"
    using tr1 by (simp_all add: resetCounters_def)
  have sub: "allFilteredTweets ?st1 \<subseteq> allFilteredTweets ?r2"
    using all2 by auto
  have rec2: "addId (getTweetConversationId doc ?r2 r) (addId (getTweetId r) (filteredParentIds ?r2))
        = filteredParentIds ?r2 \<and>
      addId (getTweetId r) (allFilteredTweets ?r2) = allFilteredTweets ?r2"
    if "r \<in> set doc" "\<not> isTweetReply r" "ageCriterion e s r" for r
    using rec1[OF that] conv[OF that(1), of ?r2 ?st1] par2
      addId_absorb_mono[of "getTweetId r" "allFilteredTweets ?st1" "allFilteredTweets ?r2"] sub
    by simp
  have noop: "fold (seedParent e s doc) doc ?r2 = ?r2"
    using rec2 by (intro fold_seed_noop) blast
  have ft2: "filterTweets e s doc (filterTweets e s doc st) = ?st3"
    using assms(1) noop by (simp add: filterTweets_def)
  have tr2: "decisions e s doc doc ?r2 = map ?d2 doc"
    using main_loop_trace[OF assms(2,3), of e s doc ?r2] rec2 by blast
  have fp1: "fullPassDecisions e s doc st = map ?d1 doc"
    using tr1 by (simp add: fullPassDecisions_def)
  have fp2: "fullPassDecisions e s doc (filterTweets e s doc st) = map ?d2 doc"
    using tr2 noop by (simp add: fullPassDecisions_def ft1)
  have known2: "previouslyFiltered ?r2 t = (previouslyFiltered ?st1 t \<or> (?d1 t \<noteq> None \<and> getTweetId t \<noteq> None))"
    if t: "t \<in> set doc" for t
  proof (cases "getTweetId t")
    case None
    then show ?thesis by (simp add: previouslyFiltered_def hasId_def)
  next
    case (Some i)
    have ne: "i \<noteq> []" using Some by (rule getTweetId_nonempty)
    have "(\<exists>u \<in> set doc. getTweetId u = Some i \<and> ?d1 u \<noteq> None) = (?d1 t \<noteq> None)"
      using distinct_ids[OF assms(3) _ t _ Some] t Some by blast
    then show ?thesis
      using Some ne all2 by (auto simp: previouslyFiltered_def hasId_def)
  qed
  have casc2: "parentCascade doc ?r2 t = parentCascade doc ?st1 t" if "t \<in> set doc" for t
    using parentCascade_static[of t ?r2 ?st1 doc] assms(2) that par2 by simp
  have filt: "(?d2 t \<noteq> None) = (?d1 t \<noteq> None)" if "t \<in> set doc" for t
    using known2[OF that] casc2[OF that]
    by (auto simp: decide_priority priorityDecision_def reasonOf_def)
  have foll: "?d1 t = Some Followers" if "t \<in> set doc" "?d2 t = Some Followers" for t
    using known2[OF that(1)] casc2[OF that(1)] that(2)
    by (auto simp: decide_priority priorityDecision_def reasonOf_def split: if_splits)
  have z1: "statsCounter ?st1 = \<lparr>hidden = 0, shown = 0, hiddenByFollowers = 0\<rparr>"
    by (simp add: fold_seed_counters resetCounters_def)
  have z2: "statsCounter ?r2 = \<lparr>hidden = 0, shown = 0, hiddenByFollowers = 0\<rparr>"
    by (simp add: resetCounters_def)
  have c1: "hidden (statsCounter ?st2) = length (filter (\<lambda>r. r \<noteq> None) (map ?d1 doc))"
    "shown (statsCounter ?st2) = length (filter (\<lambda>r. r = None) (map ?d1 doc))"
    "hiddenByFollowers (statsCounter ?st2) = length (filter (\<lambda>r. r = Some Followers) (map ?d1 doc))"
    using fold_classify_counts[of e s doc doc ?st1] tr1 z1 by simp_all
  have c2: "hidden (statsCounter ?st3) = length (filter (\<lambda>r. r \<noteq> None) (map ?d2 doc))"
    "shown (statsCounter ?st3) = length (filter (\<lambda>r. r = None) (map ?d2 doc))"
    "hiddenByFollowers (statsCounter ?st3) = length (filter (\<lambda>r. r = Some Followers) (map ?d2 doc))"
    using fold_classify_counts[of e s doc doc ?r2] tr2 z2 by simp_all
  have a: "map (\<lambda>r. r \<noteq> None) (map ?d2 doc) = map (\<lambda>r. r \<noteq> None) (map ?d1 doc)"
    using filt by simp
  have h: "length (filter (\<lambda>r. r \<noteq> None) (map ?d2 doc)) = length (filter (\<lambda>r. r \<noteq> None) (map ?d1 doc))"
    by (rule filter_count_eq) (rule filt)
  have sh: "length (filter (\<lambda>r. r = None) (map ?d2 doc)) = length (filter (\<lambda>r. r = None) (map ?d1 doc))"
    by (rule filter_count_eq) (use filt in blast)
  have hf: "length (filter (\<lambda>r. r = Some Followers) (map ?d2 doc))
      \<le> length (filter (\<lambda>r. r = Some Followers) (map ?d1 doc))"
    by (rule filter_count_le) (rule foll)
  note ft2' = ft2[unfolded ft1]
  have A: "map (\<lambda>r. r \<noteq> None) (fullPassDecisions e s doc (filterTweets e s doc st)) =
           map (\<lambda>r. r \<noteq> None) (fullPassDecisions e s doc st)"
    unfolding fp1 fp2 by (rule a)
  have B: "shown (statsCounter (filterTweets e s doc (filterTweets e s doc st))) =
           shown (statsCounter (filterTweets e s doc st))"
    unfolding ft1 ft2' c1 c2 by (rule sh)
  have C: "hidden (statsCounter (filterTweets e s doc (filterTweets e s doc st))) =
           hidden (statsCounter (filterTweets e s doc st))"
    unfolding ft1 ft2' c1 c2 by (rule h)
  have D: "hiddenByFollowers (statsCounter (filterTweets e s doc (filterTweets e s doc st))) \<le>
           hiddenByFollowers (statsCounter (filterTweets e s doc st))"
    unfolding ft1 ft2' c1 c2 by (rule hf)
  from A B C D show ?thesis by blast
qed


lemma sampleFeed_plain:
  "replyingToSpan sampleReply = None \<and> replyingToSpan sampleRoot = None \<and>
   replyingToSpan sampleRecent = None \<and> distinct (List.map_filter getTweetId sampleFeed)"
  by (simp add: List.map_filter_simps sample_defs resolver_defs string_defs)

theorem idempotence_amended_witness:
  "isForYouFeed sampleEnv \<and>
   replyingToSpan sampleReply = None \<and> replyingToSpan sampleRoot = None \<and>
   replyingToSpan sampleRecent = None \<and> distinct (List.map_filter getTweetId sampleFeed) \<and>
   map (\<lambda>r. r \<noteq> None)
     (fullPassDecisions sampleEnv followerSettings sampleFeed
        (filterTweets sampleEnv followerSettings sampleFeed initialState)) =
   map (\<lambda>r. r \<noteq> None) (fullPassDecisions sampleEnv followerSettings sampleFeed initialState) \<and>
   shown (statsCounter (filterTweets sampleEnv followerSettings sampleFeed
        (filterTweets sampleEnv followerSettings sampleFeed initialState))) =
     shown (statsCounter (filterTweets sampleEnv followerSettings sampleFeed initialState)) \<and>
   hidden (statsCounter (filterTweets sampleEnv followerSettings sampleFeed
        (filterTweets sampleEnv followerSettings sampleFeed initialState))) =
     hidden (statsCounter (filterTweets sampleEnv followerSettings sampleFeed initialState)) \<and>
   hiddenByFollowers (statsCounter (filterTweets sampleEnv followerSettings sampleFeed
        (filterTweets sampleEnv followerSettings sampleFeed initialState))) \<le>
     hiddenByFollowers (statsCounter (filterTweets sampleEnv followerSettings sampleFeed initialState))"
proof -
  have n: "\<forall>t \<in> set sampleFeed. replyingToSpan t = None"
    using sampleFeed_plain by (simp add: sampleFeed_def)
  have d: "distinct (List.map_filter getTweetId sampleFeed)"
    using sampleFeed_plain by simp
  show ?thesis
    using idempotence_amended[OF sampleEnv_onFeed n d, of followerSettings initialState]
      sampleEnv_onFeed sampleFeed_plain
    by simp
qed

lemma replyFeed_first_pass:
  "filterTweets sampleEnv followerSettings replyFeed initialState =
     \<lparr>statsCounter = \<lparr>hidden = 1, shown = 1, hiddenByFollowers = 1\<rparr>,
      filteredParentIds = {}, allFilteredTweets = {''300''}, filteredClass = {3}\<rparr>"
  by (simp add: sample_defs engine_defs evaluator_defs resolver_defs string_defs)

lemma replyFeed_second_pass:
  "statsCounter (filterTweets sampleEnv followerSettings replyFeed
     \<lparr>statsCounter = \<lparr>hidden = 1, shown = 1, hiddenByFollowers = 1\<rparr>,
      filteredParentIds = {}, allFilteredTweets = {''300''}, filteredClass = {3}\<rparr>) =
   \<lparr>hidden = 2, shown = 0, hiddenByFollowers = 0\<rparr>"
  by (simp add: sample_defs engine_defs evaluator_defs resolver_defs string_defs)

lemma replyFeed_first_decisions:
  "fullPassDecisions sampleEnv followerSettings replyFeed initialState = [None, Some Followers]"
  by (simp add: fullPassDecisions_def sample_defs engine_defs evaluator_defs resolver_defs
      string_defs)

lemma replyFeed_second_decisions:
  "fullPassDecisions sampleEnv followerSettings replyFeed
     \<lparr>statsCounter = \<lparr>hidden = 1, shown = 1, hiddenByFollowers = 1\<rparr>,
      filteredParentIds = {}, allFilteredTweets = {''300''}, filteredClass = {3}\<rparr> =
   [Some Parent_filtered, Some Previously_filtered]"
  by (simp add: fullPassDecisions_def sample_defs engine_defs evaluator_defs resolver_defs
      string_defs)

text \<open>
  Claim C4 as stated fails. On \<open>replyFeed\<close> with the follower filter on, the first pass
  shows the reply and filters the other tweet for its followers; the second pass then
  finds that tweet marked, filters the reply as a reply to a filtered author, and counts
  nothing as hidden by followers.
\<close>

theorem idempotence_counterexample:
  "isForYouFeed sampleEnv \<and>
   fullPassDecisions sampleEnv followerSettings replyFeed initialState = [None, Some Followers] \<and>
   fullPassDecisions sampleEnv followerSettings replyFeed
     (filterTweets sampleEnv followerSettings replyFeed initialState) =
     [Some Parent_filtered, Some Previously_filtered] \<and>
   statsCounter (filterTweets sampleEnv followerSettings replyFeed initialState) =
     \<lparr>hidden = 1, shown = 1, hiddenByFollowers = 1\<rparr> \<and>
   statsCounter (filterTweets sampleEnv followerSettings replyFeed
     (filterTweets sampleEnv followerSettings replyFeed initialState)) =
     \<lparr>hidden = 2, shown = 0, hiddenByFollowers = 0\<rparr>"
proof -
  have c1: "statsCounter (filterTweets sampleEnv followerSettings replyFeed initialState) =
     \<lparr>hidden = 1, shown = 1, hiddenByFollowers = 1\<rparr>"
    unfolding replyFeed_first_pass by simp
  have d2: "fullPassDecisions sampleEnv followerSettings replyFeed
     (filterTweets sampleEnv followerSettings replyFeed initialState) =
     [Some Parent_filtered, Some Previously_filtered]"
    unfolding replyFeed_first_pass by (rule replyFeed_second_decisions)
  have c2: "statsCounter (filterTweets sampleEnv followerSettings replyFeed
     (filterTweets sampleEnv followerSettings replyFeed initialState)) =
     \<lparr>hidden = 2, shown = 0, hiddenByFollowers = 0\<rparr>"
    unfolding replyFeed_first_pass by (rule replyFeed_second_pass)
  from sampleEnv_onFeed replyFeed_first_decisions d2 c1 c2 show ?thesis by blast
qed

section \<open>Parsing the follower count\<close>




















subsection \<open>Whole numbers below \<open>2 ^ 53\<close> are exact\<close>

















text \<open>The two roundings show on counts that are not binary fractions.\<close>

lemma double_product_examples:
  "extractFollowerCountFromText ''32.3K Followers'' = Some (Num 32299) \<and>
   extractFollowerCountFromText ''2.01K Followers'' = Some (Num 2009) \<and>
   extractFollowerCountFromText ''12345678901234567890123 Followers'' =
     Some (Num 12345678901234567741440)"
  by (simp add: evaluator_defs string_defs)





section \<open>Timestamps without a machine-readable value\<close>

text \<open>
  Claim C7 fails on the code at the tweet \<open>sampleUndated\<close>: its time element shows
  \<open>Mar 5\<close> and has no \<open>datetime\<close>. The text contains the letter \<open>m\<close>, so the minutes branch
  takes it, \<open>parseInt\<close> gives \<open>NaN\<close> and the result is an invalid date, not a maximally old
  one: the age test is false and the tweet is shown.
\<close>

theorem undated_text_not_filtered:
  "parseInt (toLowerCase (trim ''Mar 5'')) = None \<and>
   parseTweetTime sampleEnv \<lparr>datetime = None, timeText = ''Mar 5''\<rparr> = None \<and>
   \<not> tooOld sampleEnv defaultSettings \<lparr>datetime = None, timeText = ''Mar 5''\<rparr> \<and>
   fst (decide sampleEnv defaultSettings [sampleUndated] initialState sampleUndated) = None \<and>
   node sampleUndated \<notin>
     filteredClass (filterTweets sampleEnv defaultSettings [sampleUndated] initialState)"
  by (simp add: sample_defs engine_defs evaluator_defs resolver_defs string_defs)

text \<open>
  What does hold. The short relative forms of the page are converted as the claim says,
  and a text without any of \<open>now\<close>, \<open>m\<close>, \<open>h\<close>, \<open>d\<close>, \<open>s\<close> goes to the date parser and, when
  that fails, to the epoch, which is at or before the cutoff as soon as the cutoff is not
  negative.
\<close>

lemma relative_forms:
  "parseTweetTime e \<lparr>datetime = None, timeText = ''Just now''\<rparr> = Some (now e) \<and>
   parseTweetTime e \<lparr>datetime = None, timeText = ''10s''\<rparr> = Some (now e - 10 * 1000) \<and>
   parseTweetTime e \<lparr>datetime = None, timeText = ''5m''\<rparr> = Some (now e - 5 * 60000) \<and>
   parseTweetTime e \<lparr>datetime = None, timeText = ''3h''\<rparr> = Some (now e - 3 * 3600000) \<and>
   parseTweetTime e \<lparr>datetime = None, timeText = ''2d''\<rparr> = Some (now e - 2 * 86400000)"
  by (simp add: evaluator_defs string_defs)

lemma startsWith_includes: "startsWith s (p @ q) \<Longrightarrow> str_includes s q"
proof (induction p arbitrary: s)
  case Nil
  then show ?case by (cases s) (auto, cases q, auto)
next
  case (Cons x p)
  then show ?case by (cases s) auto
qed

lemma includes_suffix: "str_includes s (p @ q) \<Longrightarrow> str_includes s q"
proof (induction s)
  case Nil
  then show ?case by simp
next
  case (Cons c cs)
  then show ?case using startsWith_includes[of "c # cs" p q] by auto
qed

lemma unrecognised_text_epoch:
  assumes "datetime el = None"
    and "\<not> str_includes (toLowerCase (trim (timeText el))) ''now''"
    and "\<not> str_includes (toLowerCase (trim (timeText el))) ''m''"
    and "\<not> str_includes (toLowerCase (trim (timeText el))) ''h''"
    and "\<not> str_includes (toLowerCase (trim (timeText el))) ''d''"
    and "\<not> str_includes (toLowerCase (trim (timeText el))) ''s''"
    and "dateParse e (toLowerCase (trim (timeText el))) = None"
    and "maxAge s * 60000 \<le> now e"
  shows "parseTweetTime e el = Some 0 \<and> tooOld e s el"
proof -
  have "\<not> str_includes (toLowerCase (trim (timeText el))) (''just '' @ ''now'')"
    using assms(2) includes_suffix by blast
  then have jn: "\<not> str_includes (toLowerCase (trim (timeText el))) ''just now''"
    by simp
  have p: "parseTweetTime e el = Some 0"
    using assms(1-7) jn by (simp add: parseTweetTime_def truthy_def Let_def)
  then show ?thesis
    using assms(8) by (simp add: tooOld_iff)
qed

section \<open>The conversation id taken from a link of the tweet\<close>

lemma conversationLink_skips_regions:
  "conversationLink ls = Some m \<Longrightarrow>
   \<exists>l \<in> set ls. \<not> inCaret l \<and> \<not> inCardWrapper l \<and> statusMatch (href l) = Some m"
  by (induction ls) (auto split: if_splits option.splits)

text \<open>
  Claim C8 fails on the code at \<open>sampleRoot\<close>, a tweet without data attributes whose only
  status link is its own permalink, outside any caret or card: method 2 returns the id of
  that link, which is the identity that \<open>getTweetId\<close> resolves for the tweet.
\<close>

theorem conversation_id_is_own_identity:
  "attrs sampleRoot ''data-conversation-id'' = None \<and>
   getTweetId sampleRoot = Some ''100'' \<and>
   conversationLink (statusAnchors sampleRoot) = Some ''100'' \<and>
   getTweetConversationId doc st sampleRoot = Some ''100''"
  by (simp add: sample_defs resolver_defs string_defs)

section \<open>The settings after the load callback\<close>

text \<open>
  Claim C9 as stated fails. Loading \<open>malformedRecord\<close> over the initial settings puts the
  text \<open>soon\<close> in \<open>maxAge\<close> (truthy, so the guard lets it through) and the falsy number 0
  in \<open>minFollowers\<close> (a number, so the guard lets it through).
\<close>

theorem load_counterexample:
  "maxAge (loadSettings malformedRecord initialSettings) = JString ''soon'' \<and>
   typeof (maxAge (loadSettings malformedRecord initialSettings)) \<noteq> ''number'' \<and>
   minFollowers (loadSettings malformedRecord initialSettings) = JNumber 0 \<and>
   \<not> toBoolean (minFollowers (loadSettings malformedRecord initialSettings))"
  by (simp add: loadSettings_def malformedRecord_def initialSettings_def toBoolean_def typeof_def)

text \<open>
  Claim C9, as amended. A falsy stored \<open>maxAge\<close> keeps the default of 120 and a truthy one,
  of whatever type, replaces it; \<open>enabled\<close> and \<open>followerFilterEnabled\<close> are taken only when
  they are booleans and \<open>minFollowers\<close> only when it is a number. So after the load from
  the initial settings \<open>maxAge\<close> is truthy, the two flags are booleans and \<open>minFollowers\<close>
  is a number.
\<close>

theorem load_guards:
  "(\<not> toBoolean (maxAge result) \<longrightarrow>
      maxAge (loadSettings result initialSettings) = JNumber 120) \<and>
   (toBoolean (maxAge result) \<longrightarrow>
      maxAge (loadSettings result initialSettings) = maxAge result) \<and>
   enabled (loadSettings result st) =
     (if typeof (enabled result) = ''boolean'' then enabled result else enabled st) \<and>
   followerFilterEnabled (loadSettings result st) =
     (if typeof (followerFilterEnabled result) = ''boolean'' then followerFilterEnabled result
      else followerFilterEnabled st) \<and>
   minFollowers (loadSettings result st) =
     (if typeof (minFollowers result) = ''number'' then minFollowers result else minFollowers st) \<and>
   toBoolean (maxAge (loadSettings result initialSettings)) \<and>
   typeof (enabled (loadSettings result initialSettings)) = ''boolean'' \<and>
   typeof (followerFilterEnabled (loadSettings result initialSettings)) = ''boolean'' \<and>
   typeof (minFollowers (loadSettings result initialSettings)) = ''number''"
  by (auto simp: loadSettings_def initialSettings_def Let_def toBoolean_def typeof_def)

theorem load_guards_witness:
  "\<not> toBoolean (JNumber 0) \<and>
   maxAge (loadSettings (malformedRecord\<lparr>maxAge := JNumber 0\<rparr>) initialSettings) = JNumber 120 \<and>
   toBoolean (JNumber 60) \<and>
   maxAge (loadSettings (malformedRecord\<lparr>maxAge := JNumber 60\<rparr>) initialSettings) = JNumber 60"
  using load_guards[where result = "malformedRecord\<lparr>maxAge := JNumber 0\<rparr>"]
    load_guards[where result = "malformedRecord\<lparr>maxAge := JNumber 60\<rparr>"]
  by (simp add: toBoolean_def)

end
